theory Spec2Isabelle
  imports Main "HOL-Library.Multiset" "HOL-Library.Sublist"
begin

section \<open>cibyl.utils.filtering\<close>

text \<open>
  \<^verbatim>\<open>
  def apply_filters(iterable, *filters):
      result = list(iterable)
      for check in filters:
          result = list(filter(check, result))
      return result
  \<close>
  The loop over \<open>filters\<close> is the recursion below: \<open>result\<close> is the loop variable.
  Predicates are total functions to \<open>bool\<close> (a predicate that raises is outside the
  model).
\<close>

fun apply_filters_loop :: "'a list \<Rightarrow> ('a \<Rightarrow> bool) list \<Rightarrow> 'a list" where
  "apply_filters_loop result [] = result"
| "apply_filters_loop result (check # filters) =
     apply_filters_loop (filter check result) filters"

definition apply_filters :: "'a list \<Rightarrow> ('a \<Rightarrow> bool) list \<Rightarrow> 'a list" where
  "apply_filters iterable filters = apply_filters_loop iterable filters"

section \<open>Python values held by job variables\<close>

text \<open>
  The variables of a Zuul variant are a \<open>dict[str, Any]\<close>. The values modelled are
  \<open>None\<close>, booleans, integers and strings, with Python's truth value and \<open>str()\<close>
  on them. Floats and containers are not part of this value universe.
\<close>

datatype pyval = PyNone | PyBool bool | PyInt int | PyStr string

fun py_truthy :: "pyval \<Rightarrow> bool" where
  "py_truthy PyNone = False"
| "py_truthy (PyBool b) = b"
| "py_truthy (PyInt i) = (i \<noteq> 0)"
| "py_truthy (PyStr s) = (s \<noteq> [])"

definition digit_char :: "nat \<Rightarrow> char" where
  "digit_char d = ''0123456789'' ! d"

function str_nat :: "nat \<Rightarrow> string" where
  "str_nat n = (if n < 10 then [digit_char n]
                else str_nat (n div 10) @ [digit_char (n mod 10)])"
  by pat_completeness auto
termination
  by (relation "measure id") auto

declare str_nat.simps [simp del]

fun py_str :: "pyval \<Rightarrow> string" where
  "py_str PyNone = ''None''"
| "py_str (PyBool b) = (if b then ''True'' else ''False'')"
| "py_str (PyInt i) = (if i < 0 then CHR ''-'' # str_nat (nat (- i)) else str_nat (nat i))"
| "py_str (PyStr s) = s"

section \<open>Low-level Zuul providers\<close>

text \<open>
  The classes of \<open>cibyl.sources.zuul.apis\<close> are not part of the sources at hand; the
  records below hold the attributes that the transactions module reads from them.
  A call to a provider (\<open>builds()\<close>, \<open>variables(recursive)\<close>) is taken to have
  returned; its answer is a field of the record.
\<close>

record tenant_api =
  tenant_name :: string

record project_api =
  project_name :: string
  project_url :: string
  project_tenant :: tenant_api

record pipeline_api =
  pipeline_name :: string
  pipeline_project :: project_api

record build_api =
  build_uuid :: string
  build_result :: string
  build_project :: string
  build_pipeline :: string

record variant_api =
  variant_name :: string
  variant_variables :: "bool \<Rightarrow> string \<rightharpoonup> pyval"

record job_api =
  job_name :: string
  job_url :: string
  job_tenant :: tenant_api
  job_builds :: "build_api list"
  job_variants :: "variant_api list"

section \<open>cibyl.sources.zuul.transactions: responses\<close>

text \<open>Each response wraps the low-level object it was built from.\<close>

datatype TenantResponse = TenantResponse (tr_tenant: tenant_api)
datatype ProjectResponse = ProjectResponse (pr_project: project_api)
datatype PipelineResponse = PipelineResponse (plr_pipeline: pipeline_api)
datatype JobResponse = JobResponse (jr_job: job_api)
datatype VariantResponse = VariantResponse (vr_variant: variant_api)
datatype BuildResponse = BuildResponse (bur_build: build_api)

definition TenantResponse_name :: "TenantResponse \<Rightarrow> string" where
  "TenantResponse_name self = tenant_name (tr_tenant self)"

definition ProjectResponse_tenant :: "ProjectResponse \<Rightarrow> TenantResponse" where
  "ProjectResponse_tenant self = TenantResponse (project_tenant (pr_project self))"

definition ProjectResponse_name :: "ProjectResponse \<Rightarrow> string" where
  "ProjectResponse_name self = project_name (pr_project self)"

definition PipelineResponse_project :: "PipelineResponse \<Rightarrow> ProjectResponse" where
  "PipelineResponse_project self = ProjectResponse (pipeline_project (plr_pipeline self))"

definition PipelineResponse_name :: "PipelineResponse \<Rightarrow> string" where
  "PipelineResponse_name self = pipeline_name (plr_pipeline self)"

definition JobResponse_tenant :: "JobResponse \<Rightarrow> TenantResponse" where
  "JobResponse_tenant self = TenantResponse (job_tenant (jr_job self))"

definition JobResponse_name :: "JobResponse \<Rightarrow> string" where
  "JobResponse_name self = job_name (jr_job self)"

definition VariantResponse_variables :: "VariantResponse \<Rightarrow> bool \<Rightarrow> string \<rightharpoonup> pyval" where
  "VariantResponse_variables self recursive = variant_variables (vr_variant self) recursive"

section \<open>cibyl.sources.zuul.transactions: BuildsRequest\<close>

text \<open>
  \<open>matches_regex\<close> is imported from \<open>cibyl.utils.filtering\<close> but is not defined in the
  file at hand: it is the parameter \<open>matches_regex\<close> (pattern first, string second) of
  every filter-adding method. The request object is mutated and returned by each
  method; the model returns the updated record.
\<close>

record BuildsRequest =
  br_filters :: "(build_api \<Rightarrow> bool) list"
  br_job :: job_api
  br_last_build_only :: bool

definition BuildsRequest_init :: "job_api \<Rightarrow> BuildsRequest" where
  "BuildsRequest_init job = \<lparr>br_filters = [], br_job = job, br_last_build_only = False\<rparr>"

definition with_uuid ::
  "(string \<Rightarrow> string \<Rightarrow> bool) \<Rightarrow> string list \<Rightarrow> BuildsRequest \<Rightarrow> BuildsRequest" where
  "with_uuid matches_regex pattern self =
     self\<lparr>br_filters := br_filters self @
       [\<lambda>build. list_ex (\<lambda>patt. matches_regex patt (build_uuid build)) pattern]\<rparr>"

definition with_status ::
  "(string \<Rightarrow> string \<Rightarrow> bool) \<Rightarrow> string list \<Rightarrow> BuildsRequest \<Rightarrow> BuildsRequest" where
  "with_status matches_regex pattern self =
     self\<lparr>br_filters := br_filters self @
       [\<lambda>build. list_ex (\<lambda>patt. matches_regex patt (build_result build)) pattern]\<rparr>"

definition with_project ::
  "(string \<Rightarrow> string \<Rightarrow> bool) \<Rightarrow> string list \<Rightarrow> BuildsRequest \<Rightarrow> BuildsRequest" where
  "with_project matches_regex pattern self =
     self\<lparr>br_filters := br_filters self @
       [\<lambda>build. list_ex (\<lambda>patt. matches_regex patt (build_project build)) pattern]\<rparr>"

definition with_pipeline ::
  "(string \<Rightarrow> string \<Rightarrow> bool) \<Rightarrow> string list \<Rightarrow> BuildsRequest \<Rightarrow> BuildsRequest" where
  "with_pipeline matches_regex pattern self =
     self\<lparr>br_filters := br_filters self @
       [\<lambda>build. list_ex (\<lambda>patt. matches_regex patt (build_pipeline build)) pattern]\<rparr>"

definition with_last_build_only :: "BuildsRequest \<Rightarrow> BuildsRequest" where
  "with_last_build_only self = self\<lparr>br_last_build_only := True\<rparr>"

text \<open>\<open>builds[0:1]\<close> is \<open>take 1\<close>: a slice never raises, also on the empty list.\<close>

definition BuildsRequest_get :: "BuildsRequest \<Rightarrow> BuildResponse list" where
  "BuildsRequest_get self =
     (let builds = apply_filters (job_builds (br_job self)) (br_filters self);
          builds = (if br_last_build_only self then take 1 builds else builds)
      in map BuildResponse builds)"

text \<open>
  A chain of method calls on a request, one constructor per method, so that a statement
  can range over every order of calls.
\<close>

datatype build_call =
    WithUuid "string list"
  | WithStatus "string list"
  | WithProject "string list"
  | WithPipeline "string list"
  | WithLastBuildOnly

fun call :: "(string \<Rightarrow> string \<Rightarrow> bool) \<Rightarrow> build_call \<Rightarrow> BuildsRequest \<Rightarrow> BuildsRequest" where
  "call mr (WithUuid pattern) self = with_uuid mr pattern self"
| "call mr (WithStatus pattern) self = with_status mr pattern self"
| "call mr (WithProject pattern) self = with_project mr pattern self"
| "call mr (WithPipeline pattern) self = with_pipeline mr pattern self"
| "call mr WithLastBuildOnly self = with_last_build_only self"

fun chain :: "(string \<Rightarrow> string \<Rightarrow> bool) \<Rightarrow> build_call list \<Rightarrow> BuildsRequest \<Rightarrow> BuildsRequest" where
  "chain mr [] self = self"
| "chain mr (c # cs) self = chain mr cs (call mr c self)"

text \<open>What one call of the chain asks of a build: a pattern call asks that some pattern
  matches the field, the truncation call asks nothing.\<close>

fun accepts :: "(string \<Rightarrow> string \<Rightarrow> bool) \<Rightarrow> build_call \<Rightarrow> build_api \<Rightarrow> bool" where
  "accepts mr (WithUuid pattern) build = list_ex (\<lambda>patt. mr patt (build_uuid build)) pattern"
| "accepts mr (WithStatus pattern) build = list_ex (\<lambda>patt. mr patt (build_result build)) pattern"
| "accepts mr (WithProject pattern) build = list_ex (\<lambda>patt. mr patt (build_project build)) pattern"
| "accepts mr (WithPipeline pattern) build = list_ex (\<lambda>patt. mr patt (build_pipeline build)) pattern"
| "accepts mr WithLastBuildOnly build = True"

section \<open>cibyl.plugins.openstack.sources.zuul.variants\<close>

text \<open>
  \<^verbatim>\<open>
  def search(self, variant):
      variables = variant.variables(recursive=True)
      for search_term in self.search_terms:
          if search_term in variables:
              return variables[search_term]
      return None
  \<close>
\<close>

fun search_loop :: "string list \<Rightarrow> (string \<rightharpoonup> pyval) \<Rightarrow> pyval" where
  "search_loop [] variables = PyNone"
| "search_loop (search_term # rest) variables =
     (case variables search_term of
        Some v \<Rightarrow> v
      | None \<Rightarrow> search_loop rest variables)"

definition VariableSearch_search :: "string list \<Rightarrow> VariantResponse \<Rightarrow> pyval" where
  "VariableSearch_search search_terms variant =
     search_loop search_terms (VariantResponse_variables variant True)"

definition DEFAULT_SEARCH_TERMS :: "string list" where
  "DEFAULT_SEARCH_TERMS = [''rhos_release_version'', ''osp_release'', ''release'']"

text \<open>
  \<^verbatim>\<open>
  result = super().search(variant)
  # The release was not found
  if not result:
      return None
  return str(result)
  \<close>
\<close>

definition ReleaseSearch_search :: "string list \<Rightarrow> VariantResponse \<Rightarrow> pyval" where
  "ReleaseSearch_search search_terms variant =
     (let result = VariableSearch_search search_terms variant
      in if \<not> py_truthy result then PyNone else PyStr (py_str result))"

section \<open>Equality of response objects\<close>

text \<open>
  Python compares objects with \<open>==\<close>, which calls \<open>__eq__\<close> of the left operand's
  class. Of the response classes only \<open>PipelineResponse\<close> defines \<open>__eq__\<close>:
  \<^verbatim>\<open>
  def __eq__(self, other):
      if not isinstance(other, PipelineResponse):
          return False
      if self is other:
          return True
      return \
          self.name == other.name and \
          self.project.name == other.project.name
  \<close>
  The other classes inherit \<open>object.__eq__\<close>, which answers \<open>True\<close> for the same
  object and \<open>NotImplemented\<close> otherwise; Python then asks the right operand's
  \<open>__eq__\<close> with the operands swapped, and falls back to identity when that one
  gives \<open>NotImplemented\<close> too. An object is a response together with its address;
  \<open>self is other\<close> compares addresses.
\<close>

datatype pyobj =
    ObjTenant nat TenantResponse
  | ObjProject nat ProjectResponse
  | ObjPipeline nat PipelineResponse
  | ObjJob nat JobResponse
  | ObjOther nat

fun address :: "pyobj \<Rightarrow> nat" where
  "address (ObjTenant a _) = a"
| "address (ObjProject a _) = a"
| "address (ObjPipeline a _) = a"
| "address (ObjJob a _) = a"
| "address (ObjOther a) = a"

definition PipelineResponse_eq :: "nat \<Rightarrow> PipelineResponse \<Rightarrow> pyobj \<Rightarrow> bool" where
  "PipelineResponse_eq self_address self other =
     (case other of
        ObjPipeline other_address other_response \<Rightarrow>
          if self_address = other_address then True
          else PipelineResponse_name self = PipelineResponse_name other_response
             \<and> ProjectResponse_name (PipelineResponse_project self) =
               ProjectResponse_name (PipelineResponse_project other_response)
      | _ \<Rightarrow> False)"

fun py_eq :: "pyobj \<Rightarrow> pyobj \<Rightarrow> bool" where
  "py_eq (ObjPipeline a self) other = PipelineResponse_eq a self other"
| "py_eq self other =
     (if address self = address other then True
      else (case other of
              ObjPipeline b other_response \<Rightarrow> PipelineResponse_eq b other_response self
            | _ \<Rightarrow> False))"

section \<open>Configuration models and command-line arguments\<close>

text \<open>
  The classes \<open>Environment\<close>, \<open>System\<close>, \<open>Source\<close> and \<open>Argument\<close> are not part of
  the sources at hand; the validator reads \<open>env.name.value\<close>, \<open>env.systems\<close>,
  \<open>system.name.value\<close>, \<open>system.system_type.value\<close>, \<open>system.sources\<close>,
  \<open>source.name\<close> and \<open>argument.value\<close> from them. The records hold these
  attributes. The validator mutates the objects it is given, and keeps references to
  them in several lists, so objects live in a store and are named by their address:
  an environment holds the addresses of its systems, a system those of its sources.
  The store also keeps the calls of \<open>LOG.debug\<close>, oldest first, each as the message
  template and the name it is called with.
\<close>

record Source =
  source_name :: string
  source_enabled :: bool

record System =
  system_name :: string
  system_type :: string
  system_enabled :: bool
  system_sources :: "nat list"

record Environment =
  environment_name :: string
  environment_systems :: "nat list"

record store =
  environments_at :: "nat \<Rightarrow> Environment"
  systems_at :: "nat \<Rightarrow> System"
  sources_at :: "nat \<Rightarrow> Source"
  debug_log :: "(string \<times> string) list"

text \<open>
  The value of an argument is a list of strings or \<open>None\<close>. \<open>ci_args.get(key)\<close> is
  \<open>None\<close> for a key that was not supplied. Whether an \<open>Argument\<close> object counts as
  true in a condition such as \<open>if user_sources:\<close> is decided by its class, which is
  not at hand: it is the parameter \<open>truth\<close> of every method that tests an argument.
\<close>

record Argument =
  arg_value :: "string list option"

type_synonym ci_args = "string \<rightharpoonup> Argument"

datatype error =
    InvalidEnvironment string "string list"
  | InvalidSystem string "string list"
  | NoValidSystem "string list"
  | NoEnabledSystem
  | NoValidSources "string list"
  | TypeError

text \<open>Modelled from the spec: \<open>Source.disable()\<close>, the mutator of a source that marks
  it disabled; disabling twice leaves it disabled.\<close>

definition Source_disable :: "nat \<Rightarrow> store \<Rightarrow> store" where
  "Source_disable source st =
     st\<lparr>sources_at := (sources_at st)(source := (sources_at st source)\<lparr>source_enabled := False\<rparr>)\<rparr>"

text \<open>Modelled from the spec: \<open>System.enable()\<close>, which sets the enabled flag of a
  system, and \<open>System.is_enabled()\<close>, which reads it.\<close>

definition System_enable :: "nat \<Rightarrow> store \<Rightarrow> store" where
  "System_enable system st =
     st\<lparr>systems_at := (systems_at st)(system := (systems_at st system)\<lparr>system_enabled := True\<rparr>)\<rparr>"

definition System_is_enabled :: "nat \<Rightarrow> store \<Rightarrow> bool" where
  "System_is_enabled system st = system_enabled (systems_at st system)"

text \<open>The assignment \<open>env.systems.value = env_systems\<close>.\<close>

definition set_env_systems :: "nat \<Rightarrow> nat list \<Rightarrow> store \<Rightarrow> store" where
  "set_env_systems env env_systems st =
     st\<lparr>environments_at :=
       (environments_at st)(env := (environments_at st env)\<lparr>environment_systems := env_systems\<rparr>)\<rparr>"

text \<open>The call \<open>LOG.debug(msg, name)\<close>.\<close>

definition LOG_debug :: "string \<Rightarrow> string \<Rightarrow> store \<Rightarrow> store" where
  "LOG_debug msg name st = st\<lparr>debug_log := debug_log st @ [(msg, name)]\<rparr>"

section \<open>cibyl.cli.validator\<close>

text \<open>
  A method that may raise and may mutate the configuration takes the store and returns
  its answer, or the error raised, with the store as it is at that moment.
\<close>

type_synonym check = "nat \<Rightarrow> store \<Rightarrow> (error + bool) \<times> store"

text \<open>
  \<^verbatim>\<open>
  env_user_input = self.ci_args.get(argument)
  if env_user_input:
      for env_name in env_user_input.value:
          if env_name not in all_envs:
              raise exception_to_raise(env_name, all_envs)
  \<close>
  Iterating over the value \<open>None\<close> raises \<open>TypeError\<close>.
\<close>

fun check_names ::
  "string list \<Rightarrow> string list \<Rightarrow> (string \<Rightarrow> string list \<Rightarrow> error) \<Rightarrow> error + unit" where
  "check_names [] all_envs exception_to_raise = Inr ()"
| "check_names (env_name # rest) all_envs exception_to_raise =
     (if env_name \<notin> set all_envs then Inl (exception_to_raise env_name all_envs)
      else check_names rest all_envs exception_to_raise)"

definition check_input_environments ::
  "(Argument \<Rightarrow> bool) \<Rightarrow> ci_args \<Rightarrow> string list \<Rightarrow> string
     \<Rightarrow> (string \<Rightarrow> string list \<Rightarrow> error) \<Rightarrow> error + unit" where
  "check_input_environments truth args all_envs argument exception_to_raise =
     (case args argument of
        None \<Rightarrow> Inr ()
      | Some env_user_input \<Rightarrow>
          if truth env_user_input
          then (case arg_value env_user_input of
                  None \<Rightarrow> Inl TypeError
                | Some names \<Rightarrow> check_names names all_envs exception_to_raise)
          else Inr ())"

text \<open>
  \<^verbatim>\<open>
  user_env = self.ci_args.get("env_name")
  if user_env:
      return env.name.value in user_env.value
  return True
  \<close>
  \<open>x in argument.value\<close> raises \<open>TypeError\<close> when the value is \<open>None\<close>.
\<close>

definition consistent_environment :: "(Argument \<Rightarrow> bool) \<Rightarrow> ci_args \<Rightarrow> check" where
  "consistent_environment truth args env st =
     (case args ''env_name'' of
        None \<Rightarrow> (Inr True, st)
      | Some user_env \<Rightarrow>
          if truth user_env
          then (case arg_value user_env of
                  None \<Rightarrow> (Inl TypeError, st)
                | Some names \<Rightarrow>
                    (Inr (environment_name (environments_at st env) \<in> set names), st))
          else (Inr True, st))"

definition consistent_system_names ::
  "(Argument \<Rightarrow> bool) \<Rightarrow> ci_args \<Rightarrow> string \<Rightarrow> error + bool" where
  "consistent_system_names truth args name =
     (case args ''systems'' of
        None \<Rightarrow> Inr True
      | Some user_systems \<Rightarrow>
          if truth user_systems
          then (case arg_value user_systems of
                  None \<Rightarrow> Inl TypeError
                | Some names \<Rightarrow> if name \<notin> set names then Inr False else Inr True)
          else Inr True)"

text \<open>
  \<^verbatim>\<open>
  user_system_type = self.ci_args.get("system_type")
  if user_system_type and system_type not in user_system_type.value:
      return False
  user_systems = self.ci_args.get("systems")
  if user_systems and name not in user_systems.value:
      return False
  return True
  \<close>
  \<open>consistent_system_names\<close> is the second test and the final \<open>return True\<close>.
\<close>

definition consistent_system :: "(Argument \<Rightarrow> bool) \<Rightarrow> ci_args \<Rightarrow> check" where
  "consistent_system truth args system st =
     (let name = system_name (systems_at st system);
          stype = system_type (systems_at st system)
      in case args ''system_type'' of
           None \<Rightarrow> (consistent_system_names truth args name, st)
         | Some user_system_type \<Rightarrow>
             if truth user_system_type
             then (case arg_value user_system_type of
                     None \<Rightarrow> (Inl TypeError, st)
                   | Some types \<Rightarrow>
                       if stype \<notin> set types then (Inr False, st)
                       else (consistent_system_names truth args name, st))
             else (consistent_system_names truth args name, st))"

text \<open>
  \<^verbatim>\<open>
  for source in system.sources:
      if source.name in unused_sources:
          source.disable()
  \<close>
\<close>

fun disable_unused :: "string set \<Rightarrow> nat list \<Rightarrow> store \<Rightarrow> store" where
  "disable_unused unused_sources [] st = st"
| "disable_unused unused_sources (source # rest) st =
     disable_unused unused_sources rest
       (if source_name (sources_at st source) \<in> unused_sources
        then Source_disable source st else st)"

text \<open>
  \<^verbatim>\<open>
  system_sources = set(source.name for source in system.sources)
  user_sources = self.ci_args.get("sources")
  if user_sources:
      user_sources_names = set(user_sources.value)
      unused_sources = system_sources-user_sources_names
      for source in system.sources: ...
      if not user_sources_names & system_sources:
          return False
  return True
  \<close>
  \<open>set(None)\<close> raises \<open>TypeError\<close>.
\<close>

definition system_has_valid_sources :: "(Argument \<Rightarrow> bool) \<Rightarrow> ci_args \<Rightarrow> check" where
  "system_has_valid_sources truth args system st =
     (let sources = system_sources (systems_at st system);
          system_source_names = set (map (\<lambda>source. source_name (sources_at st source)) sources)
      in case args ''sources'' of
           None \<Rightarrow> (Inr True, st)
         | Some user_sources \<Rightarrow>
             if truth user_sources
             then (case arg_value user_sources of
                     None \<Rightarrow> (Inl TypeError, st)
                   | Some names \<Rightarrow>
                       (let user_sources_names = set names;
                            unused_sources = system_source_names - user_sources_names;
                            st' = disable_unused unused_sources sources st
                        in if user_sources_names \<inter> system_source_names = {}
                           then (Inr False, st')
                           else (Inr True, st')))
             else (Inr True, st))"

text \<open>
  The inner loop of \<open>check_envs\<close>, over the systems of one environment;
  \<open>env_systems\<close> is the list the loop appends to.
  \<^verbatim>\<open>
  for system in env.systems:
      if not systems_check(system):
          LOG.debug(systems_msg, system.name.value)
          continue
      env_systems.append(system)
  \<close>
\<close>

fun check_systems ::
  "check \<Rightarrow> string \<Rightarrow> nat list \<Rightarrow> nat list \<Rightarrow> store \<Rightarrow> (error + nat list) \<times> store" where
  "check_systems systems_check systems_msg [] env_systems st = (Inr env_systems, st)"
| "check_systems systems_check systems_msg (system # rest) env_systems st =
     (case systems_check system st of
        (Inl e, st') \<Rightarrow> (Inl e, st')
      | (Inr False, st') \<Rightarrow>
          check_systems systems_check systems_msg rest env_systems
            (LOG_debug systems_msg (system_name (systems_at st' system)) st')
      | (Inr True, st') \<Rightarrow>
          check_systems systems_check systems_msg rest (env_systems @ [system]) st')"

text \<open>
  \<^verbatim>\<open>
  for env in environments:
      env_systems = []
      if not envs_check(env):
          LOG.debug(envs_msg, env.name.value)
          continue
      for system in env.systems: ...
      if env_systems:
          env.systems.value = env_systems
          user_envs.append(env)
          user_systems.extend(env_systems)
  return user_envs, user_systems
  \<close>
  An environment whose \<open>env_systems\<close> stays empty is passed over without a call of
  \<open>LOG.debug\<close>.
\<close>

fun check_envs_loop ::
  "check \<Rightarrow> check \<Rightarrow> string \<Rightarrow> string \<Rightarrow> nat list \<Rightarrow> nat list \<times> nat list \<Rightarrow> store
     \<Rightarrow> (error + nat list \<times> nat list) \<times> store" where
  "check_envs_loop systems_check envs_check systems_msg envs_msg [] (user_envs, user_systems) st =
     (Inr (user_envs, user_systems), st)"
| "check_envs_loop systems_check envs_check systems_msg envs_msg (env # rest)
       (user_envs, user_systems) st =
     (case envs_check env st of
        (Inl e, st1) \<Rightarrow> (Inl e, st1)
      | (Inr False, st1) \<Rightarrow>
          check_envs_loop systems_check envs_check systems_msg envs_msg rest
            (user_envs, user_systems)
            (LOG_debug envs_msg (environment_name (environments_at st1 env)) st1)
      | (Inr True, st1) \<Rightarrow>
          (case check_systems systems_check systems_msg
                  (environment_systems (environments_at st1 env)) [] st1 of
             (Inl e, st2) \<Rightarrow> (Inl e, st2)
           | (Inr env_systems, st2) \<Rightarrow>
               if env_systems \<noteq> []
               then check_envs_loop systems_check envs_check systems_msg envs_msg rest
                      (user_envs @ [env], user_systems @ env_systems)
                      (set_env_systems env env_systems st2)
               else check_envs_loop systems_check envs_check systems_msg envs_msg rest
                      (user_envs, user_systems) st2))"

definition check_envs ::
  "nat list \<Rightarrow> check \<Rightarrow> check \<Rightarrow> string \<Rightarrow> string \<Rightarrow> store
     \<Rightarrow> (error + nat list \<times> nat list) \<times> store" where
  "check_envs environments systems_check envs_check systems_msg envs_msg st =
     check_envs_loop systems_check envs_check systems_msg envs_msg environments ([], []) st"

definition system_is_enabled :: check where
  "system_is_enabled system st = (Inr (System_is_enabled system st), st)"

text \<open>The check \<open>lambda _: True\<close>.\<close>

definition always_true :: check where
  "always_true env st = (Inr True, st)"

fun enable_named :: "string list \<Rightarrow> nat list \<Rightarrow> store \<Rightarrow> store" where
  "enable_named names [] st = st"
| "enable_named names (system # rest) st =
     enable_named names rest
       (if system_name (systems_at st system) \<in> set names then System_enable system st else st)"

text \<open>
  \<^verbatim>\<open>
  user_systems = self.ci_args.get("systems")
  if not user_systems or not user_systems.value:
      return
  for system in systems:
      if system.name.value in user_systems.value:
          system.enable()
  \<close>
  A value that is \<open>None\<close> or the empty list is false, and the method returns.
\<close>

definition override_enabled_systems ::
  "(Argument \<Rightarrow> bool) \<Rightarrow> ci_args \<Rightarrow> nat list \<Rightarrow> store \<Rightarrow> store" where
  "override_enabled_systems truth args systems st =
     (case args ''systems'' of
        None \<Rightarrow> st
      | Some user_systems \<Rightarrow>
          if truth user_systems
          then (case arg_value user_systems of
                  None \<Rightarrow> st
                | Some names \<Rightarrow> if names = [] then st else enable_named names systems st)
          else st)"

text \<open>The lists built at the start of \<open>validate_environments\<close>, and the list of source
  names of the last error.\<close>

definition all_envs_of :: "nat list \<Rightarrow> store \<Rightarrow> string list" where
  "all_envs_of environments st =
     map (\<lambda>env. environment_name (environments_at st env)) environments"

definition all_systems_of :: "nat list \<Rightarrow> store \<Rightarrow> nat list" where
  "all_systems_of environments st =
     concat (map (\<lambda>env. environment_systems (environments_at st env)) environments)"

definition system_names_of :: "nat list \<Rightarrow> store \<Rightarrow> string list" where
  "system_names_of all_systems st = map (\<lambda>system. system_name (systems_at st system)) all_systems"

definition source_names_of :: "nat list \<Rightarrow> store \<Rightarrow> string list" where
  "source_names_of all_systems st =
     concat (map (\<lambda>system. map (\<lambda>source. source_name (sources_at st source))
                              (system_sources (systems_at st system))) all_systems)"

text \<open>
  \<open>validate_environments\<close>: the two input checks, then the three stages, each on the
  environments the stage before it returned. \<open>all_systems\<close> holds the addresses
  collected before any stage ran; the source names of \<open>NoValidSources\<close> are read
  through them when the error is raised.
\<close>

definition validate_environments ::
  "(Argument \<Rightarrow> bool) \<Rightarrow> ci_args \<Rightarrow> nat list \<Rightarrow> store \<Rightarrow> (error + nat list) \<times> store" where
  "validate_environments truth args environments st =
     (let all_envs = all_envs_of environments st;
          all_systems = all_systems_of environments st
      in case check_input_environments truth args all_envs ''env_name'' InvalidEnvironment of
           Inl e \<Rightarrow> (Inl e, st)
         | Inr _ \<Rightarrow>
        (let system_names = system_names_of all_systems st
         in case check_input_environments truth args system_names ''systems'' InvalidSystem of
              Inl e \<Rightarrow> (Inl e, st)
            | Inr _ \<Rightarrow>
        (case check_envs environments (consistent_system truth args)
                (consistent_environment truth args)
                ''System %s is not consistent with user input''
                ''Environment %s is not consistent with user input'' st of
           (Inl e, st1) \<Rightarrow> (Inl e, st1)
         | (Inr (user_envs, user_systems), st1) \<Rightarrow>
        if user_systems = [] then (Inl (NoValidSystem system_names), st1)
        else
        (let st2 = override_enabled_systems truth args user_systems st1
         in case check_envs user_envs system_is_enabled always_true
                   ''System %s is disabled '' [] st2 of
              (Inl e, st3) \<Rightarrow> (Inl e, st3)
            | (Inr (user_envs, user_systems), st3) \<Rightarrow>
        if user_systems = [] then (Inl NoEnabledSystem, st3)
        else
        (case check_envs user_envs (system_has_valid_sources truth args) always_true
                ''System %s has no sources consistent with user input'' [] st3 of
           (Inl e, st4) \<Rightarrow> (Inl e, st4)
         | (Inr (user_envs, user_systems), st4) \<Rightarrow>
        if user_systems = [] then (Inl (NoValidSources (source_names_of all_systems st4)), st4)
        else (Inr user_envs, st4))))))"

section \<open>Vocabulary of the statements\<close>

text \<open>The systems an environment holds in a given store.\<close>

definition systems_of :: "store \<Rightarrow> nat \<Rightarrow> nat list" where
  "systems_of st env = environment_systems (environments_at st env)"

text \<open>An object passes a check in a store when the check answers \<open>True\<close> there.\<close>

definition passes :: "check \<Rightarrow> nat \<Rightarrow> store \<Rightarrow> bool" where
  "passes chk x st = (fst (chk x st) = Inr True)"

text \<open>The argument a key gives to a method that tests it: the one supplied under the
  key, when it is true.\<close>

definition in_force :: "(Argument \<Rightarrow> bool) \<Rightarrow> ci_args \<Rightarrow> string \<Rightarrow> Argument option" where
  "in_force truth args key =
     (case args key of None \<Rightarrow> None | Some a \<Rightarrow> if truth a then Some a else None)"

text \<open>An argument is well typed when it is not in force or its value is a list.\<close>

definition arg_typed :: "(Argument \<Rightarrow> bool) \<Rightarrow> ci_args \<Rightarrow> string \<Rightarrow> bool" where
  "arg_typed truth args key =
     (case in_force truth args key of None \<Rightarrow> True | Some a \<Rightarrow> arg_value a \<noteq> None)"

text \<open>The names the user gave exist: both input checks of \<open>validate_environments\<close>
  return.\<close>

definition inputs_exist :: "(Argument \<Rightarrow> bool) \<Rightarrow> ci_args \<Rightarrow> nat list \<Rightarrow> store \<Rightarrow> bool" where
  "inputs_exist truth args environments st =
     (check_input_environments truth args (all_envs_of environments st) ''env_name''
          InvalidEnvironment = Inr ()
      \<and> check_input_environments truth args
          (system_names_of (all_systems_of environments st) st) ''systems'' InvalidSystem
        = Inr ())"

text \<open>The list an argument carries, when it is in force with one.\<close>

definition requested :: "(Argument \<Rightarrow> bool) \<Rightarrow> ci_args \<Rightarrow> string \<Rightarrow> string list option" where
  "requested truth args key =
     (case in_force truth args key of None \<Rightarrow> None | Some a \<Rightarrow> arg_value a)"

text \<open>The three calls of \<open>check_envs\<close> in \<open>validate_environments\<close>, with the checks
  and the messages it passes.\<close>

definition consistency_check ::
  "(Argument \<Rightarrow> bool) \<Rightarrow> ci_args \<Rightarrow> nat list \<Rightarrow> store
     \<Rightarrow> (error + nat list \<times> nat list) \<times> store" where
  "consistency_check truth args environments st =
     check_envs environments (consistent_system truth args) (consistent_environment truth args)
       ''System %s is not consistent with user input''
       ''Environment %s is not consistent with user input'' st"

definition enabled_check :: "nat list \<Rightarrow> store \<Rightarrow> (error + nat list \<times> nat list) \<times> store" where
  "enabled_check user_envs st =
     check_envs user_envs system_is_enabled always_true ''System %s is disabled '' [] st"

definition sources_check ::
  "(Argument \<Rightarrow> bool) \<Rightarrow> ci_args \<Rightarrow> nat list \<Rightarrow> store
     \<Rightarrow> (error + nat list \<times> nat list) \<times> store" where
  "sources_check truth args user_envs st =
     check_envs user_envs (system_has_valid_sources truth args) always_true
       ''System %s has no sources consistent with user input'' [] st"

text \<open>
  The consistency filter in the words of the specification: an environment is kept
  when no \<open>env_name\<close> filter is given or its name is in the allowed set; a system is
  kept when no \<open>system_type\<close> filter is given or its type is in the allowed set, and no
  \<open>systems\<close> filter is given or its name is in the allowed set.
\<close>

definition spec_consistent_environment ::
  "(Argument \<Rightarrow> bool) \<Rightarrow> ci_args \<Rightarrow> store \<Rightarrow> nat \<Rightarrow> bool" where
  "spec_consistent_environment truth args st env =
     (case requested truth args ''env_name'' of
        None \<Rightarrow> True
      | Some names \<Rightarrow> environment_name (environments_at st env) \<in> set names)"

definition spec_consistent_system ::
  "(Argument \<Rightarrow> bool) \<Rightarrow> ci_args \<Rightarrow> store \<Rightarrow> nat \<Rightarrow> bool" where
  "spec_consistent_system truth args st s =
     ((case requested truth args ''system_type'' of
         None \<Rightarrow> True
       | Some types \<Rightarrow> system_type (systems_at st s) \<in> set types)
      \<and> (case requested truth args ''systems'' of
           None \<Rightarrow> True
         | Some names \<Rightarrow> system_name (systems_at st s) \<in> set names))"

text \<open>A system survives the consistency filter when an environment of the
  configuration that is kept holds it, and it is kept itself.\<close>

definition survives_consistency ::
  "(Argument \<Rightarrow> bool) \<Rightarrow> ci_args \<Rightarrow> nat list \<Rightarrow> store \<Rightarrow> nat \<Rightarrow> bool" where
  "survives_consistency truth args environments st s =
     (list_ex (\<lambda>env. spec_consistent_environment truth args st env
                 \<and> s \<in> set (systems_of st env)) environments
      \<and> spec_consistent_system truth args st s)"

text \<open>A system is named when the \<open>systems\<close> argument is in force and holds its name.\<close>

definition named :: "(Argument \<Rightarrow> bool) \<Rightarrow> ci_args \<Rightarrow> store \<Rightarrow> nat \<Rightarrow> bool" where
  "named truth args st s =
     (case requested truth args ''systems'' of
        None \<Rightarrow> False
      | Some names \<Rightarrow> system_name (systems_at st s) \<in> set names)"

text \<open>
  The messages a stage of \<open>check_envs\<close> may log: \<open>envs_msg\<close> with the name of an
  environment of \<open>E\<close>, \<open>systems_msg\<close> with the name of a system of \<open>R\<close>.
\<close>

definition stage_messages ::
  "string \<Rightarrow> string \<Rightarrow> store \<Rightarrow> nat set \<Rightarrow> nat set \<Rightarrow> (string \<times> string) set" where
  "stage_messages systems_msg envs_msg st E R =
     (\<lambda>env. (envs_msg, environment_name (environments_at st env))) ` E
     \<union> (\<lambda>s. (systems_msg, system_name (systems_at st s))) ` R"

text \<open>The names of the sources of a system.\<close>

definition source_names :: "store \<Rightarrow> nat \<Rightarrow> string set" where
  "source_names st s =
     set (map (\<lambda>source. source_name (sources_at st source)) (system_sources (systems_at st s)))"

text \<open>The sources of a store after every source of the systems \<open>X\<close> whose name is not
  among \<open>names\<close> has been disabled, and nothing else has changed.\<close>

definition disabled_view :: "store \<Rightarrow> string list \<Rightarrow> nat set \<Rightarrow> nat \<Rightarrow> Source" where
  "disabled_view st names X r =
     (if r \<in> (\<Union>s\<in>X. set (system_sources (systems_at st s)))
         \<and> source_name (sources_at st r) \<notin> set names
      then (sources_at st r)\<lparr>source_enabled := False\<rparr> else sources_at st r)"

text \<open>
  The systems the source stage examines, told from the configuration as it is before
  validation: a system of an environment consistent with the user input, itself
  consistent with it, and enabled or named by the \<open>systems\<close> argument.
\<close>

definition examined :: "(Argument \<Rightarrow> bool) \<Rightarrow> ci_args \<Rightarrow> nat list \<Rightarrow> store \<Rightarrow> nat \<Rightarrow> bool" where
  "examined truth args environments st s =
     ((\<exists>env\<in>set environments. passes (consistent_environment truth args) env st
          \<and> s \<in> set (systems_of st env))
      \<and> passes (consistent_system truth args) s st
      \<and> (System_is_enabled s st
          \<or> (\<exists>ns. requested truth args ''systems'' = Some ns
                \<and> system_name (systems_at st s) \<in> set ns)))"

section \<open>Example inputs\<close>

text \<open>A pattern matcher for the examples: a pattern matches the string equal to it.\<close>

definition exact_match :: "string \<Rightarrow> string \<Rightarrow> bool" where
  "exact_match patt s = (patt = s)"

definition example_builds :: "build_api list" where
  "example_builds =
     [\<lparr>build_uuid = ''u3'', build_result = ''SUCCESS'', build_project = ''p'', build_pipeline = ''check''\<rparr>,
      \<lparr>build_uuid = ''u2'', build_result = ''FAILURE'', build_project = ''p'', build_pipeline = ''check''\<rparr>,
      \<lparr>build_uuid = ''u1'', build_result = ''FAILURE'', build_project = ''p'', build_pipeline = ''post''\<rparr>]"

definition example_job :: job_api where
  "example_job = \<lparr>job_name = ''job'', job_url = ''url'', job_tenant = \<lparr>tenant_name = ''tenant''\<rparr>,
     job_builds = example_builds, job_variants = []\<rparr>"

definition example_variant :: VariantResponse where
  "example_variant = VariantResponse \<lparr>variant_name = ''job'',
     variant_variables = (\<lambda>recursive. [''b'' \<mapsto> PyInt 17, ''c'' \<mapsto> PyStr ''x''])\<rparr>"

definition null_release_variant :: VariantResponse where
  "null_release_variant = VariantResponse \<lparr>variant_name = ''job'',
     variant_variables = (\<lambda>recursive. [''release'' \<mapsto> PyNone])\<rparr>"

definition example_pipeline :: pipeline_api where
  "example_pipeline = \<lparr>pipeline_name = ''check'',
     pipeline_project = \<lparr>project_name = ''nova'', project_url = ''url'',
       project_tenant = \<lparr>tenant_name = ''tenant''\<rparr>\<rparr>\<rparr>"

text \<open>A configuration of two environments: \<open>env1\<close> holds the disabled Jenkins system
  \<open>sys_a\<close> (sources \<open>A\<close>, \<open>B\<close>) and the enabled Zuul system \<open>sys_b\<close> (source \<open>A\<close>);
  \<open>env2\<close> holds the disabled Zuul system \<open>sys_c\<close> (source \<open>D\<close>). Nothing has been
  logged yet.\<close>

definition example_store :: store where
  "example_store = \<lparr>
     environments_at = (\<lambda>_. \<lparr>environment_name = [], environment_systems = []\<rparr>)
       (0 := \<lparr>environment_name = ''env1'', environment_systems = [0, 1]\<rparr>,
        1 := \<lparr>environment_name = ''env2'', environment_systems = [2]\<rparr>),
     systems_at = (\<lambda>_. \<lparr>system_name = [], system_type = [], system_enabled = False,
                          system_sources = []\<rparr>)
       (0 := \<lparr>system_name = ''sys_a'', system_type = ''jenkins'', system_enabled = False,
              system_sources = [0, 1]\<rparr>,
        1 := \<lparr>system_name = ''sys_b'', system_type = ''zuul'', system_enabled = True,
              system_sources = [2]\<rparr>,
        2 := \<lparr>system_name = ''sys_c'', system_type = ''zuul'', system_enabled = False,
              system_sources = [3]\<rparr>),
     sources_at = (\<lambda>_. \<lparr>source_name = [], source_enabled = False\<rparr>)
       (0 := \<lparr>source_name = ''A'', source_enabled = True\<rparr>,
        1 := \<lparr>source_name = ''B'', source_enabled = True\<rparr>,
        2 := \<lparr>source_name = ''A'', source_enabled = True\<rparr>,
        3 := \<lparr>source_name = ''D'', source_enabled = True\<rparr>),
     debug_log = []\<rparr>"

definition arg :: "string list \<Rightarrow> Argument" where
  "arg names = \<lparr>arg_value = Some names\<rparr>"

text \<open>A truth value for the examples: an argument is true when its value is a list
  that is not empty.\<close>

definition value_truth :: "Argument \<Rightarrow> bool" where
  "value_truth a = (case arg_value a of None \<Rightarrow> False | Some names \<Rightarrow> names \<noteq> [])"


text \<open>The definitions that evaluate the validator on the example configuration.\<close>

lemmas eval_defs = validate_environments_def check_input_environments_def all_envs_of_def
  all_systems_of_def system_names_of_def source_names_of_def check_envs_def
  consistent_system_def consistent_system_names_def consistent_environment_def
  system_has_valid_sources_def system_is_enabled_def System_is_enabled_def always_true_def
  override_enabled_systems_def System_enable_def Source_disable_def set_env_systems_def
  LOG_debug_def example_store_def arg_def value_truth_def Let_def passes_def systems_of_def
  requested_def in_force_def arg_typed_def inputs_exist_def source_names_def
  spec_consistent_environment_def spec_consistent_system_def survives_consistency_def
  named_def consistency_check_def enabled_check_def sources_check_def

section \<open>Filtering: results\<close>

lemma apply_filters_loop_filter:
  "apply_filters_loop xs ps = filter (\<lambda>x. list_all (\<lambda>p. p x) ps) xs"
proof (induction ps arbitrary: xs)
  case Nil
  show ?case by simp
next
  case (Cons p ps)
  have "apply_filters_loop xs (p # ps) = filter (\<lambda>x. list_all (\<lambda>q. q x) ps) (filter p xs)"
    using Cons.IH by simp
  also have "\<dots> = filter (\<lambda>x. list_all (\<lambda>q. q x) (p # ps)) xs"
    by (simp add: conj_commute)
  finally show ?case .
qed

text \<open>
  C8. For every finite list \<open>S\<close> and every list of predicates \<open>ps\<close>,
  \<open>apply_filters S ps\<close> is the list of the elements of \<open>S\<close> that satisfy every
  predicate of \<open>ps\<close>, in the order they have in \<open>S\<close> (it is a subsequence of \<open>S\<close>),
  and supplying the same predicates in another order \<open>qs\<close> gives the same list.
\<close>

theorem apply_filters_all_predicates:
  "apply_filters S ps = filter (\<lambda>x. list_all (\<lambda>p. p x) ps) S
   \<and> subseq (apply_filters S ps) S
   \<and> (mset qs = mset ps \<longrightarrow> apply_filters S qs = apply_filters S ps)"
proof (intro conjI impI)
  show eq: "apply_filters S ps = filter (\<lambda>x. list_all (\<lambda>p. p x) ps) S"
    by (simp add: apply_filters_def apply_filters_loop_filter)
  show "subseq (apply_filters S ps) S"
    unfolding eq by (rule subseq_filter_left)
next
  assume "mset qs = mset ps"
  then have "set qs = set ps"
    by (rule mset_eq_setD)
  then have "\<And>x. list_all (\<lambda>p. p x) qs = list_all (\<lambda>p. p x) ps"
    by (simp add: list_all_iff)
  then show "apply_filters S qs = apply_filters S ps"
    by (simp add: apply_filters_def apply_filters_loop_filter)
qed

theorem apply_filters_all_predicates_witness:
  "apply_filters [1, 6, 3, 8, 4 :: nat] [\<lambda>n. 2 < n, even] = [6, 8, 4]
   \<and> subseq (apply_filters [1, 6, 3, 8, 4 :: nat] [\<lambda>n. 2 < n, even]) [1, 6, 3, 8, 4]
   \<and> mset [even, \<lambda>n :: nat. 2 < n] = mset [\<lambda>n. 2 < n, even]
   \<and> apply_filters [1, 6, 3, 8, 4 :: nat] [even, \<lambda>n. 2 < n] = [6, 8, 4]"
proof -
  have m: "mset [even, \<lambda>n :: nat. 2 < n] = mset [\<lambda>n. 2 < n, even]"
    by (simp add: add.commute)
  have v: "apply_filters [1, 6, 3, 8, 4 :: nat] [\<lambda>n. 2 < n, even] = [6, 8, 4]"
    by (simp add: apply_filters_def)
  from apply_filters_all_predicates
    [of "[1, 6, 3, 8, 4 :: nat]" "[\<lambda>n. 2 < n, even]" "[even, \<lambda>n. 2 < n]"] m v
  show ?thesis by simp
qed

section \<open>BuildsRequest: results\<close>

lemma chain_job: "br_job (chain mr cs r) = br_job r"
proof (induction cs arbitrary: r)
  case Nil
  show ?case by simp
next
  case (Cons c cs)
  show ?case
    by (cases c) (simp_all add: Cons.IH with_uuid_def with_status_def with_project_def
        with_pipeline_def with_last_build_only_def)
qed

lemma chain_last_build_only:
  "br_last_build_only (chain mr cs r) = (br_last_build_only r \<or> WithLastBuildOnly \<in> set cs)"
proof (induction cs arbitrary: r)
  case Nil
  show ?case by simp
next
  case (Cons c cs)
  show ?case
    by (cases c) (auto simp add: Cons.IH with_uuid_def with_status_def with_project_def
        with_pipeline_def with_last_build_only_def)
qed

lemma chain_filters:
  "list_all (\<lambda>p. p b) (br_filters (chain mr cs r)) =
     (list_all (\<lambda>p. p b) (br_filters r) \<and> list_all (\<lambda>c. accepts mr c b) cs)"
proof (induction cs arbitrary: r)
  case Nil
  show ?case by simp
next
  case (Cons c cs)
  show ?case
    by (cases c) (auto simp add: Cons.IH with_uuid_def with_status_def with_project_def
        with_pipeline_def with_last_build_only_def)
qed

text \<open>
  C1. Take any chain of calls on a fresh \<open>BuildsRequest\<close> that contains
  \<open>with_last_build_only()\<close>, at any position among the pattern filters \<open>with_uuid\<close>,
  \<open>with_status\<close>, \<open>with_project\<close> and \<open>with_pipeline\<close>. Then \<open>get()\<close> returns the
  responses of the first element, if any, of the provider's build list filtered by
  every pattern filter of the chain: all filters are applied before the truncation.
  The answer has at most one element, and it is the empty list when no build passes
  the filters.
\<close>

theorem BuildsRequest_get_last_build_only:
  assumes "WithLastBuildOnly \<in> set calls"
  shows "BuildsRequest_get (chain mr calls (BuildsRequest_init job)) =
           map BuildResponse
             (take 1 (filter (\<lambda>b. list_all (\<lambda>c. accepts mr c b) calls) (job_builds job)))
         \<and> length (BuildsRequest_get (chain mr calls (BuildsRequest_init job))) \<le> 1
         \<and> (filter (\<lambda>b. list_all (\<lambda>c. accepts mr c b) calls) (job_builds job) = [] \<longrightarrow>
              BuildsRequest_get (chain mr calls (BuildsRequest_init job)) = [])"
proof -
  let ?r = "chain mr calls (BuildsRequest_init job)"
  have flag: "br_last_build_only ?r"
    using assms by (simp add: chain_last_build_only)
  have job: "br_job ?r = job"
    by (simp add: chain_job BuildsRequest_init_def)
  have "\<And>b. list_all (\<lambda>p. p b) (br_filters ?r) = list_all (\<lambda>c. accepts mr c b) calls"
    by (simp add: chain_filters BuildsRequest_init_def)
  then have "apply_filters (job_builds job) (br_filters ?r) =
      filter (\<lambda>b. list_all (\<lambda>c. accepts mr c b) calls) (job_builds job)"
    by (simp add: apply_filters_def apply_filters_loop_filter)
  then have eq: "BuildsRequest_get ?r =
      map BuildResponse
        (take 1 (filter (\<lambda>b. list_all (\<lambda>c. accepts mr c b) calls) (job_builds job)))"
    using flag job by (simp add: BuildsRequest_get_def)
  show ?thesis
    unfolding eq by simp
qed

theorem BuildsRequest_get_last_build_only_witness:
  "WithLastBuildOnly \<in> set [WithLastBuildOnly, WithStatus [''FAILURE'', ''ERROR'']]
   \<and> BuildsRequest_get
       (chain exact_match [WithLastBuildOnly, WithStatus [''FAILURE'', ''ERROR'']]
          (BuildsRequest_init example_job))
     = [BuildResponse \<lparr>build_uuid = ''u2'', build_result = ''FAILURE'', build_project = ''p'',
          build_pipeline = ''check''\<rparr>]
   \<and> BuildsRequest_get
       (chain exact_match [WithPipeline [''periodic''], WithLastBuildOnly]
          (BuildsRequest_init example_job)) = []"
proof -
  have a: "WithLastBuildOnly \<in> set [WithLastBuildOnly, WithStatus [''FAILURE'', ''ERROR'']]"
    by simp
  have b: "WithLastBuildOnly \<in> set [WithPipeline [''periodic''], WithLastBuildOnly]"
    by simp
  show ?thesis
    using BuildsRequest_get_last_build_only [OF a, of exact_match example_job]
      BuildsRequest_get_last_build_only [OF b, of exact_match example_job]
    by (simp add: example_job_def example_builds_def exact_match_def)
qed

section \<open>Variable search: results\<close>

lemma search_loop_first:
  "\<forall>u\<in>set pre. variables u = None \<Longrightarrow> variables t = Some v \<Longrightarrow>
     search_loop (pre @ t # post) variables = v"
  by (induction pre) simp_all

lemma search_loop_absent:
  "\<forall>u\<in>set ts. variables u = None \<Longrightarrow> search_loop ts variables = PyNone"
  by (induction ts) simp_all

text \<open>
  C9. For search terms \<open>pre @ t # post\<close> where no term of \<open>pre\<close> is a key of the
  variant's recursively gathered variables and \<open>t\<close> is bound to \<open>v\<close>, \<open>search\<close>
  returns \<open>v\<close>, whatever the later terms \<open>post\<close> are and whether or not they are bound;
  when no search term is a key, \<open>search\<close> returns \<open>None\<close>.
\<close>

theorem VariableSearch_search_first_present:
  "((\<forall>u\<in>set pre. VariantResponse_variables variant True u = None)
      \<and> VariantResponse_variables variant True t = Some v \<longrightarrow>
      VariableSearch_search (pre @ t # post) variant = v)
   \<and> ((\<forall>u\<in>set search_terms. VariantResponse_variables variant True u = None) \<longrightarrow>
      VariableSearch_search search_terms variant = PyNone)"
  by (simp add: VariableSearch_search_def search_loop_first search_loop_absent)

theorem VariableSearch_search_first_present_witness:
  "VariantResponse_variables example_variant True ''a'' = None
   \<and> VariantResponse_variables example_variant True ''b'' = Some (PyInt 17)
   \<and> VariantResponse_variables example_variant True ''c'' = Some (PyStr ''x'')
   \<and> VariableSearch_search [''a'', ''b'', ''c''] example_variant = PyInt 17
   \<and> VariableSearch_search [''a'', ''d''] example_variant = PyNone"
  using VariableSearch_search_first_present
    [of "[''a'']" example_variant "''b''" "PyInt 17" "[''c'']" "[''a'', ''d'']"]
  by (simp add: example_variant_def VariantResponse_variables_def)

text \<open>
  C4, as stated, fails where the first matching term is bound to \<open>None\<close>: the term is
  present in the variables, yet \<open>ReleaseSearch.search\<close> returns \<open>None\<close> and not the
  string form \<open>'None'\<close> of the value.
\<close>

theorem ReleaseSearch_search_none_bound_counterexample:
  "VariantResponse_variables null_release_variant True ''release'' = Some PyNone
   \<and> ReleaseSearch_search DEFAULT_SEARCH_TERMS null_release_variant = PyNone
   \<and> ReleaseSearch_search DEFAULT_SEARCH_TERMS null_release_variant \<noteq> PyStr (py_str PyNone)
   \<and> \<not> (ReleaseSearch_search DEFAULT_SEARCH_TERMS null_release_variant = PyNone
         \<longleftrightarrow> (\<forall>t\<in>set DEFAULT_SEARCH_TERMS.
                VariantResponse_variables null_release_variant True t = None))"
  by (simp add: null_release_variant_def VariantResponse_variables_def ReleaseSearch_search_def
      VariableSearch_search_def DEFAULT_SEARCH_TERMS_def)

text \<open>
  C4, amended. When the value bound to the first search term present in the variant's
  recursively gathered variables is true in Python's sense, \<open>ReleaseSearch.search\<close>
  returns the string form of that value. It returns \<open>None\<close> when no search term is
  present, and also when the first term present is bound to \<open>None\<close>.
\<close>

theorem ReleaseSearch_search_truthy:
  "((\<forall>u\<in>set pre. VariantResponse_variables variant True u = None)
      \<and> VariantResponse_variables variant True t = Some v \<and> py_truthy v \<longrightarrow>
      ReleaseSearch_search (pre @ t # post) variant = PyStr (py_str v))
   \<and> ((\<forall>u\<in>set search_terms. VariantResponse_variables variant True u = None) \<longrightarrow>
      ReleaseSearch_search search_terms variant = PyNone)
   \<and> ((\<forall>u\<in>set pre. VariantResponse_variables variant True u = None)
      \<and> VariantResponse_variables variant True t = Some PyNone \<longrightarrow>
      ReleaseSearch_search (pre @ t # post) variant = PyNone)"
  by (simp add: ReleaseSearch_search_def VariableSearch_search_def search_loop_first
      search_loop_absent)

theorem ReleaseSearch_search_truthy_witness:
  "VariantResponse_variables example_variant True ''a'' = None
   \<and> VariantResponse_variables example_variant True ''b'' = Some (PyInt 17)
   \<and> py_truthy (PyInt 17)
   \<and> ReleaseSearch_search [''a'', ''b'', ''c''] example_variant = PyStr ''17''
   \<and> ReleaseSearch_search [''a'', ''d''] example_variant = PyNone
   \<and> ReleaseSearch_search [''release''] null_release_variant = PyNone"
  using ReleaseSearch_search_truthy
    [of "[''a'']" example_variant "''b''" "PyInt 17" "[''c'']" "[''a'', ''d'']"]
    ReleaseSearch_search_truthy
    [of "[]" null_release_variant "''release''" PyNone "[]" "[]"]
  by (simp add: example_variant_def null_release_variant_def VariantResponse_variables_def
      str_nat.simps digit_char_def)

section \<open>Validator: the loops of check_envs\<close>

text \<open>
  A rule for the two loops. \<open>Inv E X\<close> is an invariant of the store, indexed by the
  environments \<open>E\<close> that the environment check has rejected and the systems \<open>X\<close>
  that have been checked so far. A system check answers \<open>P\<close> and keeps the
  environments; together with the logging of a rejected system it moves the invariant
  to one more system.
\<close>

lemma environments_at_LOG_debug [simp]:
  "environments_at (LOG_debug msg name st) = environments_at st"
  by (simp add: LOG_debug_def)

lemma systems_at_LOG_debug [simp]:
  "systems_at (LOG_debug msg name st) = systems_at st"
  by (simp add: LOG_debug_def)

lemma sources_at_LOG_debug [simp]:
  "sources_at (LOG_debug msg name st) = sources_at st"
  by (simp add: LOG_debug_def)

lemma systems_of_LOG_debug [simp]:
  "systems_of (LOG_debug msg name st) e = systems_of st e"
  by (simp add: systems_of_def)

lemma check_systems_rule:
  assumes step: "\<And>s E X st. Inv E X st \<Longrightarrow>
      \<exists>st'. sc s st = (Inr (P s), st') \<and> environments_at st' = environments_at st
            \<and> Inv E (insert s X)
                 (if P s then st' else LOG_debug smsg (system_name (systems_at st' s)) st')"
  shows "Inv E X st \<Longrightarrow>
      \<exists>st'. check_systems sc smsg ss acc st = (Inr (acc @ filter P ss), st')
            \<and> Inv E (X \<union> set ss) st' \<and> environments_at st' = environments_at st"
proof (induction ss arbitrary: X st acc)
  case Nil
  then show ?case by simp
next
  case (Cons s ss)
  from step [OF Cons.prems] obtain st1 where
    s1: "sc s st = (Inr (P s), st1)"
    and e1: "environments_at st1 = environments_at st"
    and i1: "Inv E (insert s X)
                 (if P s then st1 else LOG_debug smsg (system_name (systems_at st1 s)) st1)"
    by blast
  let ?st2 = "if P s then st1 else LOG_debug smsg (system_name (systems_at st1 s)) st1"
  have e2: "environments_at ?st2 = environments_at st"
    using e1 by simp
  from Cons.IH [OF i1, of "if P s then acc @ [s] else acc"] obtain st' where
    r: "check_systems sc smsg ss (if P s then acc @ [s] else acc) ?st2 =
          (Inr ((if P s then acc @ [s] else acc) @ filter P ss), st')"
    and i: "Inv E (insert s X \<union> set ss) st'"
    and e: "environments_at st' = environments_at ?st2"
    by blast
  have "check_systems sc smsg (s # ss) acc st = (Inr (acc @ filter P (s # ss)), st')"
    using s1 r by (cases "P s") simp_all
  moreover have "Inv E (X \<union> set (s # ss)) st'"
    using i by simp
  moreover have "environments_at st' = environments_at st"
    using e e2 by simp
  ultimately show ?case
    by blast
qed

lemma check_envs_loop_rule:
  assumes step: "\<And>s E X st. Inv E X st \<Longrightarrow>
      \<exists>st'. sc s st = (Inr (P s), st') \<and> environments_at st' = environments_at st
            \<and> Inv E (insert s X)
                 (if P s then st' else LOG_debug smsg (system_name (systems_at st' s)) st')"
    and env: "\<And>e E X st. Inv E X st \<Longrightarrow> ec e st = (Inr (Q e), st)"
    and skip: "\<And>e E X st. Inv E X st \<Longrightarrow> \<not> Q e \<Longrightarrow>
      Inv (insert e E) X (LOG_debug emsg (environment_name (environments_at st e)) st)"
    and upd: "\<And>e xs E X st. Inv E X st \<Longrightarrow> Inv E X (set_env_systems e xs st)"
  shows "Inv E X st \<Longrightarrow>
      \<exists>st'. check_envs_loop sc ec smsg emsg es (ue, us) st =
              (Inr (ue @ filter (\<lambda>e. Q e \<and> filter P (systems_of st e) \<noteq> []) es,
                    us @ concat (map (\<lambda>e. filter P (systems_of st e)) (filter Q es))), st')
          \<and> Inv (E \<union> {e \<in> set es. \<not> Q e})
                (X \<union> (\<Union>e\<in>{e \<in> set es. Q e}. set (systems_of st e))) st'
          \<and> (\<forall>e. environments_at st' e = (environments_at st e)\<lparr>environment_systems :=
                 (if e \<in> set es \<and> Q e \<and> filter P (systems_of st e) \<noteq> []
                  then filter P (systems_of st e) else systems_of st e)\<rparr>)"
proof (induction es arbitrary: E X st ue us)
  case Nil
  then show ?case by (simp add: systems_of_def)
next
  case (Cons e es)
  note inv = Cons.prems
  have ece: "ec e st = (Inr (Q e), st)"
    by (rule env [OF inv])
  show ?case
  proof (cases "Q e")
    case False
    let ?stl = "LOG_debug emsg (environment_name (environments_at st e)) st"
    have il: "Inv (insert e E) X ?stl"
      by (rule skip [OF inv False])
    from Cons.IH [OF il, of ue us] obtain st' where
      r: "check_envs_loop sc ec smsg emsg es (ue, us) ?stl =
              (Inr (ue @ filter (\<lambda>e. Q e \<and> filter P (systems_of ?stl e) \<noteq> []) es,
                    us @ concat (map (\<lambda>e. filter P (systems_of ?stl e)) (filter Q es))), st')"
      and i: "Inv (insert e E \<union> {e \<in> set es. \<not> Q e})
                (X \<union> (\<Union>e\<in>{e \<in> set es. Q e}. set (systems_of ?stl e))) st'"
      and v: "\<forall>x. environments_at st' x = (environments_at ?stl x)\<lparr>environment_systems :=
                 (if x \<in> set es \<and> Q x \<and> filter P (systems_of ?stl x) \<noteq> []
                  then filter P (systems_of ?stl x) else systems_of ?stl x)\<rparr>"
      by blast
    have s: "{x \<in> set (e # es). Q x} = {x \<in> set es. Q x}"
      using False by auto
    have s': "E \<union> {x \<in> set (e # es). \<not> Q x} = insert e E \<union> {x \<in> set es. \<not> Q x}"
      using False by auto
    have "check_envs_loop sc ec smsg emsg (e # es) (ue, us) st =
              (Inr (ue @ filter (\<lambda>e. Q e \<and> filter P (systems_of st e) \<noteq> []) (e # es),
                    us @ concat (map (\<lambda>e. filter P (systems_of st e)) (filter Q (e # es)))), st')"
      using ece False r by simp
    moreover have "Inv (E \<union> {x \<in> set (e # es). \<not> Q x})
        (X \<union> (\<Union>x\<in>{x \<in> set (e # es). Q x}. set (systems_of st x))) st'"
      using i unfolding s s' by simp
    moreover have "\<forall>x. environments_at st' x = (environments_at st x)\<lparr>environment_systems :=
                 (if x \<in> set (e # es) \<and> Q x \<and> filter P (systems_of st x) \<noteq> []
                  then filter P (systems_of st x) else systems_of st x)\<rparr>"
      using v False by auto
    ultimately show ?thesis by blast
  next
    case True
    let ?F = "filter P (systems_of st e)"
    from check_systems_rule [where Inv = Inv and sc = sc and P = P and smsg = smsg
        and E = E and X = X and st = st and ss = "systems_of st e" and acc = "[]",
        OF step inv]
    obtain st2 where
      c: "check_systems sc smsg (systems_of st e) [] st = (Inr ?F, st2)"
      and i2: "Inv E (X \<union> set (systems_of st e)) st2"
      and e2: "environments_at st2 = environments_at st"
      by auto
    define st3 where "st3 = (if ?F \<noteq> [] then set_env_systems e ?F st2 else st2)"
    have i3: "Inv E (X \<union> set (systems_of st e)) st3"
      using i2 upd by (simp add: st3_def)
    have es3: "\<And>x. systems_of st3 x = (if x = e \<and> ?F \<noteq> [] then ?F else systems_of st x)"
      using e2 by (simp add: st3_def systems_of_def set_env_systems_def)
    have f3: "\<And>x. filter P (systems_of st3 x) = filter P (systems_of st x)"
      by (simp add: es3)
    from Cons.IH [OF i3, of "if ?F \<noteq> [] then ue @ [e] else ue" "us @ ?F"] obtain st' where
      r: "check_envs_loop sc ec smsg emsg es (if ?F \<noteq> [] then ue @ [e] else ue, us @ ?F) st3 =
              (Inr ((if ?F \<noteq> [] then ue @ [e] else ue)
                      @ filter (\<lambda>e. Q e \<and> filter P (systems_of st3 e) \<noteq> []) es,
                    (us @ ?F) @ concat (map (\<lambda>e. filter P (systems_of st3 e)) (filter Q es))), st')"
      and i: "Inv (E \<union> {e \<in> set es. \<not> Q e})
                (X \<union> set (systems_of st e) \<union> (\<Union>e\<in>{e \<in> set es. Q e}. set (systems_of st3 e))) st'"
      and v: "\<forall>x. environments_at st' x = (environments_at st3 x)\<lparr>environment_systems :=
                 (if x \<in> set es \<and> Q x \<and> filter P (systems_of st3 x) \<noteq> []
                  then filter P (systems_of st3 x) else systems_of st3 x)\<rparr>"
      by blast
    have run: "check_envs_loop sc ec smsg emsg (e # es) (ue, us) st =
        check_envs_loop sc ec smsg emsg es (if ?F \<noteq> [] then ue @ [e] else ue, us @ ?F) st3"
      using ece True c by (simp add: systems_of_def st3_def)
    have "check_envs_loop sc ec smsg emsg (e # es) (ue, us) st =
              (Inr (ue @ filter (\<lambda>e. Q e \<and> filter P (systems_of st e) \<noteq> []) (e # es),
                    us @ concat (map (\<lambda>e. filter P (systems_of st e)) (filter Q (e # es)))), st')"
      unfolding run r using True by (simp add: f3)
    moreover have "X \<union> set (systems_of st e) \<union> (\<Union>e\<in>{e \<in> set es. Q e}. set (systems_of st3 e))
        = X \<union> (\<Union>x\<in>{x \<in> set (e # es). Q x}. set (systems_of st x))"
      using True by (auto simp: es3 split: if_splits)
    moreover have "E \<union> {x \<in> set es. \<not> Q x} = E \<union> {x \<in> set (e # es). \<not> Q x}"
      using True by auto
    ultimately have "check_envs_loop sc ec smsg emsg (e # es) (ue, us) st =
              (Inr (ue @ filter (\<lambda>e. Q e \<and> filter P (systems_of st e) \<noteq> []) (e # es),
                    us @ concat (map (\<lambda>e. filter P (systems_of st e)) (filter Q (e # es)))), st')"
      and "Inv (E \<union> {x \<in> set (e # es). \<not> Q x})
          (X \<union> (\<Union>x\<in>{x \<in> set (e # es). Q x}. set (systems_of st x))) st'"
      using i by simp_all
    moreover have "\<forall>x. environments_at st' x = (environments_at st x)\<lparr>environment_systems :=
                 (if x \<in> set (e # es) \<and> Q x \<and> filter P (systems_of st x) \<noteq> []
                  then filter P (systems_of st x) else systems_of st x)\<rparr>"
    proof
      fix x
      have a: "environments_at st3 x = (environments_at st x)\<lparr>environment_systems := systems_of st3 x\<rparr>"
        using e2 by (simp add: st3_def systems_of_def set_env_systems_def)
      show "environments_at st' x = (environments_at st x)\<lparr>environment_systems :=
                 (if x \<in> set (e # es) \<and> Q x \<and> filter P (systems_of st x) \<noteq> []
                  then filter P (systems_of st x) else systems_of st x)\<rparr>"
        using v [rule_format, of x] True unfolding a f3 by (auto simp: es3)
    qed
    ultimately show ?thesis by blast
  qed
qed

lemma check_envs_pure:
  assumes sc: "\<And>s st'. systems_at st' = systems_at st \<Longrightarrow> sc s st' = (Inr (P s), st')"
    and ec: "\<And>e st'. \<forall>x. environment_name (environments_at st' x) =
                 environment_name (environments_at st x) \<Longrightarrow> ec e st' = (Inr (Q e), st')"
  shows "\<exists>st1. check_envs es sc ec smsg emsg st =
            (Inr (filter (\<lambda>e. Q e \<and> filter P (systems_of st e) \<noteq> []) es,
                  concat (map (\<lambda>e. filter P (systems_of st e)) (filter Q es))), st1)
         \<and> systems_at st1 = systems_at st \<and> sources_at st1 = sources_at st
         \<and> (\<exists>new. debug_log st1 = debug_log st @ new
               \<and> set new = stage_messages smsg emsg st {e \<in> set es. \<not> Q e}
                     {s \<in> (\<Union>e\<in>{e \<in> set es. Q e}. set (systems_of st e)). \<not> P s})
         \<and> (\<forall>e. environments_at st1 e = (environments_at st e)\<lparr>environment_systems :=
                 (if e \<in> set es \<and> Q e \<and> filter P (systems_of st e) \<noteq> []
                  then filter P (systems_of st e) else systems_of st e)\<rparr>)"
proof -
  define Inv where "Inv = (\<lambda>(E :: nat set) (X :: nat set) (st' :: store).
      systems_at st' = systems_at st \<and> sources_at st' = sources_at st
      \<and> (\<forall>x. environment_name (environments_at st' x) = environment_name (environments_at st x))
      \<and> (\<exists>new. debug_log st' = debug_log st @ new
            \<and> set new = stage_messages smsg emsg st E {s \<in> X. \<not> P s}))"
  have step: "\<exists>st''. sc s st' = (Inr (P s), st'') \<and> environments_at st'' = environments_at st'
            \<and> Inv E (insert s X)
                 (if P s then st'' else LOG_debug smsg (system_name (systems_at st'' s)) st'')"
    if i: "Inv E X st'" for s E X st'
  proof -
    from i have sy: "systems_at st' = systems_at st"
      by (simp add: Inv_def)
    from i obtain new where n: "debug_log st' = debug_log st @ new"
      "set new = stage_messages smsg emsg st E {s \<in> X. \<not> P s}"
      by (auto simp: Inv_def)
    have r: "sc s st' = (Inr (P s), st')"
      by (rule sc [OF sy])
    have "Inv E (insert s X)
        (if P s then st' else LOG_debug smsg (system_name (systems_at st' s)) st')"
    proof (cases "P s")
      case True
      then have "{x \<in> insert s X. \<not> P x} = {x \<in> X. \<not> P x}"
        by auto
      with i True show ?thesis
        by (simp add: Inv_def)
    next
      case False
      then have a: "{x \<in> insert s X. \<not> P x} = insert s {x \<in> X. \<not> P x}"
        by auto
      have "debug_log (LOG_debug smsg (system_name (systems_at st' s)) st')
          = debug_log st @ (new @ [(smsg, system_name (systems_at st s))])"
        by (simp add: LOG_debug_def n sy)
      moreover have "set (new @ [(smsg, system_name (systems_at st s))])
          = stage_messages smsg emsg st E {x \<in> insert s X. \<not> P x}"
        unfolding a by (simp add: n stage_messages_def)
      ultimately have "\<exists>new'. debug_log (LOG_debug smsg (system_name (systems_at st' s)) st')
            = debug_log st @ new'
          \<and> set new' = stage_messages smsg emsg st E {x \<in> insert s X. \<not> P x}"
        by blast
      with i False show ?thesis
        by (simp add: Inv_def)
    qed
    with r show ?thesis
      by simp
  qed
  have env: "\<And>e E X st'. Inv E X st' \<Longrightarrow> ec e st' = (Inr (Q e), st')"
    using ec by (simp add: Inv_def)
  have skip: "Inv (insert e E) X (LOG_debug emsg (environment_name (environments_at st' e)) st')"
    if i: "Inv E X st'" and "\<not> Q e" for e E X st'
  proof -
    from i have nm: "environment_name (environments_at st' e) = environment_name (environments_at st e)"
      by (simp add: Inv_def)
    from i obtain new where n: "debug_log st' = debug_log st @ new"
      "set new = stage_messages smsg emsg st E {s \<in> X. \<not> P s}"
      by (auto simp: Inv_def)
    have "debug_log (LOG_debug emsg (environment_name (environments_at st' e)) st')
          = debug_log st @ (new @ [(emsg, environment_name (environments_at st e))])"
      by (simp add: LOG_debug_def n nm)
    moreover have "set (new @ [(emsg, environment_name (environments_at st e))])
          = stage_messages smsg emsg st (insert e E) {s \<in> X. \<not> P s}"
      by (simp add: n stage_messages_def)
    ultimately have "\<exists>new'. debug_log (LOG_debug emsg (environment_name (environments_at st' e)) st')
            = debug_log st @ new'
          \<and> set new' = stage_messages smsg emsg st (insert e E) {s \<in> X. \<not> P s}"
      by blast
    with i show ?thesis
      by (simp add: Inv_def)
  qed
  have upd: "\<And>e xs E X st'. Inv E X st' \<Longrightarrow> Inv E X (set_env_systems e xs st')"
    by (simp add: Inv_def set_env_systems_def)
  have i0: "Inv {} {} st"
    by (simp add: Inv_def stage_messages_def)
  have "\<exists>st1. check_envs_loop sc ec smsg emsg es ([], []) st =
            (Inr ([] @ filter (\<lambda>e. Q e \<and> filter P (systems_of st e) \<noteq> []) es,
                  [] @ concat (map (\<lambda>e. filter P (systems_of st e)) (filter Q es))), st1)
      \<and> Inv ({} \<union> {e \<in> set es. \<not> Q e})
          ({} \<union> (\<Union>e\<in>{e \<in> set es. Q e}. set (systems_of st e))) st1
      \<and> (\<forall>e. environments_at st1 e = (environments_at st e)\<lparr>environment_systems :=
                 (if e \<in> set es \<and> Q e \<and> filter P (systems_of st e) \<noteq> []
                  then filter P (systems_of st e) else systems_of st e)\<rparr>)"
    by (rule check_envs_loop_rule [where Inv = Inv and sc = sc and P = P and ec = ec and Q = Q
          and smsg = smsg and emsg = emsg])
      (rule step env skip upd i0 | assumption)+
  then obtain st1 where
    r: "check_envs_loop sc ec smsg emsg es ([], []) st =
            (Inr ([] @ filter (\<lambda>e. Q e \<and> filter P (systems_of st e) \<noteq> []) es,
                  [] @ concat (map (\<lambda>e. filter P (systems_of st e)) (filter Q es))), st1)"
    and i: "Inv ({} \<union> {e \<in> set es. \<not> Q e})
        ({} \<union> (\<Union>e\<in>{e \<in> set es. Q e}. set (systems_of st e))) st1"
    and v: "\<forall>e. environments_at st1 e = (environments_at st e)\<lparr>environment_systems :=
                 (if e \<in> set es \<and> Q e \<and> filter P (systems_of st e) \<noteq> []
                  then filter P (systems_of st e) else systems_of st e)\<rparr>"
    by blast
  from i have i': "Inv {e \<in> set es. \<not> Q e} (\<Union>e\<in>{e \<in> set es. Q e}. set (systems_of st e)) st1"
    by simp
  from i' obtain new where n: "debug_log st1 = debug_log st @ new"
    "set new = stage_messages smsg emsg st {e \<in> set es. \<not> Q e}
        {s \<in> (\<Union>e\<in>{e \<in> set es. Q e}. set (systems_of st e)). \<not> P s}"
    unfolding Inv_def by blast
  show ?thesis
  proof (intro exI conjI)
    show "check_envs es sc ec smsg emsg st =
            (Inr (filter (\<lambda>e. Q e \<and> filter P (systems_of st e) \<noteq> []) es,
                  concat (map (\<lambda>e. filter P (systems_of st e)) (filter Q es))), st1)"
      using r by (simp add: check_envs_def)
    show "systems_at st1 = systems_at st" "sources_at st1 = sources_at st"
      using i' by (simp_all add: Inv_def)
    show "debug_log st1 = debug_log st @ new"
      by (rule n)
    show "set new = stage_messages smsg emsg st {e \<in> set es. \<not> Q e}
          {s \<in> (\<Union>e\<in>{e \<in> set es. Q e}. set (systems_of st e)). \<not> P s}"
      by (rule n)
    show "\<forall>e. environments_at st1 e = (environments_at st e)\<lparr>environment_systems :=
                 (if e \<in> set es \<and> Q e \<and> filter P (systems_of st e) \<noteq> []
                  then filter P (systems_of st e) else systems_of st e)\<rparr>"
      by (rule v)
  qed
qed

lemma disable_unused_result:
  "systems_at (disable_unused U rs st) = systems_at st
   \<and> environments_at (disable_unused U rs st) = environments_at st
   \<and> (\<forall>r. sources_at (disable_unused U rs st) r =
         (if r \<in> set rs \<and> source_name (sources_at st r) \<in> U
          then (sources_at st r)\<lparr>source_enabled := False\<rparr> else sources_at st r))"
proof (induction rs arbitrary: st)
  case Nil
  show ?case by simp
next
  case (Cons a rs)
  show ?case
    unfolding disable_unused.simps
    by (simp only: Cons.IH) (auto simp: Source_disable_def)
qed

lemma check_envs_sources:
  assumes a: "args ''sources'' = Some user_sources" and t: "truth user_sources"
    and v: "arg_value user_sources = Some names"
  shows "\<exists>st1. check_envs es (system_has_valid_sources truth args) always_true smsg emsg st =
            (Inr (filter (\<lambda>e. filter (\<lambda>s. set names \<inter> source_names st s \<noteq> {}) (systems_of st e) \<noteq> []) es,
                  concat (map (\<lambda>e. filter (\<lambda>s. set names \<inter> source_names st s \<noteq> {}) (systems_of st e)) es)), st1)
         \<and> systems_at st1 = systems_at st
         \<and> sources_at st1 = disabled_view st names (\<Union>e\<in>set es. set (systems_of st e))
         \<and> (\<forall>e. environments_at st1 e = (environments_at st e)\<lparr>environment_systems :=
                 (if e \<in> set es \<and> filter (\<lambda>s. set names \<inter> source_names st s \<noteq> {}) (systems_of st e) \<noteq> []
                  then filter (\<lambda>s. set names \<inter> source_names st s \<noteq> {}) (systems_of st e)
                  else systems_of st e)\<rparr>)"
proof -
  define P where "P = (\<lambda>s. set names \<inter> source_names st s \<noteq> {})"
  define Inv where "Inv = (\<lambda>(E :: nat set) (X :: nat set) (st' :: store).
      systems_at st' = systems_at st \<and> sources_at st' = disabled_view st names X)"
  have step: "\<exists>st''. system_has_valid_sources truth args s st' = (Inr (P s), st'')
            \<and> environments_at st'' = environments_at st'
            \<and> Inv E (insert s X)
                 (if P s then st'' else LOG_debug smsg (system_name (systems_at st'' s)) st'')"
    if i: "Inv E X st'" for s E X st'
  proof -
    let ?rs = "system_sources (systems_at st s)"
    have sy: "systems_at st' = systems_at st" and so: "sources_at st' = disabled_view st names X"
      using i by (simp_all add: Inv_def)
    have nm: "\<And>r. source_name (sources_at st' r) = source_name (sources_at st r)"
      by (simp add: so disabled_view_def)
    have sn: "set (map (\<lambda>source. source_name (sources_at st' source)) ?rs) = source_names st s"
      by (simp add: source_names_def nm)
    let ?st'' = "disable_unused (source_names st s - set names) ?rs st'"
    have run: "system_has_valid_sources truth args s st' = (Inr (P s), ?st'')"
      using a t v sn by (auto simp: system_has_valid_sources_def sy P_def Let_def)
    have "sources_at ?st'' = disabled_view st names (insert s X)"
    proof
      fix r
      have "r \<in> set ?rs \<Longrightarrow> source_name (sources_at st r) \<in> source_names st s"
        by (auto simp: source_names_def)
      then show "sources_at ?st'' r = disabled_view st names (insert s X) r"
        by (auto simp: disable_unused_result nm so disabled_view_def)
    qed
    then have "Inv E (insert s X) ?st''"
      by (simp add: Inv_def disable_unused_result sy)
    then have "Inv E (insert s X)
        (if P s then ?st'' else LOG_debug smsg (system_name (systems_at ?st'' s)) ?st'')"
      by (simp add: Inv_def)
    then show ?thesis
      using run by (simp add: disable_unused_result)
  qed
  have env: "\<And>e E X st'. Inv E X st' \<Longrightarrow> always_true e st' = (Inr ((\<lambda>_. True) e), st')"
    by (simp add: always_true_def)
  have skip: "\<And>e E X st'. Inv E X st' \<Longrightarrow> \<not> (\<lambda>_. True) e \<Longrightarrow>
      Inv (insert e E) X (LOG_debug emsg (environment_name (environments_at st' e)) st')"
    by simp
  have upd: "\<And>e xs E X st'. Inv E X st' \<Longrightarrow> Inv E X (set_env_systems e xs st')"
    by (simp add: Inv_def set_env_systems_def)
  have i0: "Inv {} {} st"
    by (auto simp: Inv_def disabled_view_def)
  have "\<exists>st1. check_envs_loop (system_has_valid_sources truth args) always_true smsg emsg es
            ([], []) st =
            (Inr ([] @ filter (\<lambda>e. True \<and> filter P (systems_of st e) \<noteq> []) es,
                  [] @ concat (map (\<lambda>e. filter P (systems_of st e)) (filter (\<lambda>_. True) es))), st1)
      \<and> Inv ({} \<union> {e \<in> set es. \<not> True})
          ({} \<union> (\<Union>e\<in>{e \<in> set es. True}. set (systems_of st e))) st1
      \<and> (\<forall>e. environments_at st1 e = (environments_at st e)\<lparr>environment_systems :=
                 (if e \<in> set es \<and> True \<and> filter P (systems_of st e) \<noteq> []
                  then filter P (systems_of st e) else systems_of st e)\<rparr>)"
    by (rule check_envs_loop_rule [where Inv = Inv and sc = "system_has_valid_sources truth args"
          and P = P and ec = always_true and Q = "\<lambda>_. True" and smsg = smsg and emsg = emsg])
      (rule step env skip upd i0 | assumption)+
  then have "\<exists>st1. check_envs_loop (system_has_valid_sources truth args) always_true smsg emsg es
            ([], []) st =
            (Inr (filter (\<lambda>e. filter P (systems_of st e) \<noteq> []) es,
                  concat (map (\<lambda>e. filter P (systems_of st e)) es)), st1)
         \<and> Inv {} (\<Union>e\<in>set es. set (systems_of st e)) st1
         \<and> (\<forall>e. environments_at st1 e = (environments_at st e)\<lparr>environment_systems :=
                 (if e \<in> set es \<and> filter P (systems_of st e) \<noteq> []
                  then filter P (systems_of st e) else systems_of st e)\<rparr>)"
    by simp
  then obtain st1 where
    r: "check_envs_loop (system_has_valid_sources truth args) always_true smsg emsg es ([], []) st =
            (Inr (filter (\<lambda>e. filter P (systems_of st e) \<noteq> []) es,
                  concat (map (\<lambda>e. filter P (systems_of st e)) es)), st1)"
    and i: "Inv {} (\<Union>e\<in>set es. set (systems_of st e)) st1"
    and e: "\<forall>e. environments_at st1 e = (environments_at st e)\<lparr>environment_systems :=
                 (if e \<in> set es \<and> filter P (systems_of st e) \<noteq> []
                  then filter P (systems_of st e) else systems_of st e)\<rparr>"
    by blast
  show ?thesis
    unfolding P_def [symmetric] check_envs_def
    using r i e unfolding Inv_def by blast
qed

lemma enable_named_result:
  "environments_at (enable_named names ss st) = environments_at st
   \<and> sources_at (enable_named names ss st) = sources_at st
   \<and> debug_log (enable_named names ss st) = debug_log st
   \<and> (\<forall>s. systems_at (enable_named names ss st) s =
         (if s \<in> set ss \<and> system_name (systems_at st s) \<in> set names
          then (systems_at st s)\<lparr>system_enabled := True\<rparr> else systems_at st s))"
proof (induction ss arbitrary: st)
  case Nil
  show ?case by simp
next
  case (Cons a ss)
  show ?case
    unfolding enable_named.simps
    by (simp only: Cons.IH) (auto simp: System_enable_def)
qed

section \<open>Equality of responses: results\<close>

text \<open>
  C3, as stated, fails for job responses: two \<open>JobResponse\<close> objects built from the
  same job agree on their name and on their tenant's name, and are not equal, since
  the class defines no \<open>__eq__\<close> and distinct objects are compared by identity.
\<close>

theorem JobResponse_equality_counterexample:
  "JobResponse_name (JobResponse example_job) = JobResponse_name (JobResponse example_job)
   \<and> TenantResponse_name (JobResponse_tenant (JobResponse example_job)) =
      TenantResponse_name (JobResponse_tenant (JobResponse example_job))
   \<and> \<not> py_eq (ObjJob 1 (JobResponse example_job)) (ObjJob 2 (JobResponse example_job))"
  by simp

text \<open>
  C3, amended. Equality of pipeline responses is structural: two \<open>PipelineResponse\<close>
  objects are equal if and only if they agree on their name and on their project's
  name, whether or not they are the same object, and a pipeline response is equal to
  no job or project response. Job responses and project responses are equal only to
  themselves: equality on them is identity.
\<close>

theorem response_equality:
  "((i = j \<longrightarrow> p = q) \<longrightarrow>
      py_eq (ObjPipeline i p) (ObjPipeline j q) =
        (PipelineResponse_name p = PipelineResponse_name q
         \<and> ProjectResponse_name (PipelineResponse_project p) =
           ProjectResponse_name (PipelineResponse_project q)))
   \<and> \<not> py_eq (ObjPipeline i p) (ObjJob j a)
   \<and> \<not> py_eq (ObjPipeline i p) (ObjProject j c)
   \<and> py_eq (ObjJob i a) (ObjJob j b) = (i = j)
   \<and> py_eq (ObjProject i c) (ObjProject j d) = (i = j)"
  by (auto simp: PipelineResponse_eq_def)

theorem response_equality_witness:
  "py_eq (ObjPipeline 1 (PipelineResponse example_pipeline))
         (ObjPipeline 2 (PipelineResponse example_pipeline))
   \<and> \<not> py_eq (ObjPipeline 1 (PipelineResponse example_pipeline))
         (ObjPipeline 2 (PipelineResponse (example_pipeline\<lparr>pipeline_name := ''post''\<rparr>)))
   \<and> \<not> py_eq (ObjJob 1 (JobResponse example_job)) (ObjJob 2 (JobResponse example_job))
   \<and> py_eq (ObjJob 1 (JobResponse example_job)) (ObjJob 1 (JobResponse example_job))"
  using response_equality [where i = 1 and j = 2 and p = "PipelineResponse example_pipeline"
      and q = "PipelineResponse example_pipeline" and a = "JobResponse example_job"
      and b = "JobResponse example_job"]
    response_equality [where i = 1 and j = 2 and p = "PipelineResponse example_pipeline"
      and q = "PipelineResponse (example_pipeline\<lparr>pipeline_name := ''post''\<rparr>)"]
    response_equality [where i = 1 and j = 1 and a = "JobResponse example_job"
      and b = "JobResponse example_job"]
  by (simp add: PipelineResponse_name_def example_pipeline_def)

section \<open>Validator: input checks\<close>

lemma check_names_ok: "set names \<subseteq> set all_envs \<Longrightarrow> check_names names all_envs exc = Inr ()"
  by (induction names) simp_all

lemma check_names_fails:
  "\<not> set names \<subseteq> set all_envs \<Longrightarrow>
     \<exists>name. name \<in> set names \<and> name \<notin> set all_envs
       \<and> check_names names all_envs exc = Inl (exc name all_envs)"
  by (induction names) auto

lemma requested_SomeD:
  "requested truth args key = Some names \<Longrightarrow>
     \<exists>a. args key = Some a \<and> truth a \<and> arg_value a = Some names"
  by (auto simp: requested_def in_force_def split: option.splits if_splits)


section \<open>Validator: the stages\<close>

lemma concat_map_filter_nonempty:
  "concat (map F (filter Q es)) = concat (map F (filter (\<lambda>e. Q e \<and> F e \<noteq> []) es))"
  by (induction es) auto

lemma stage_shape:
  assumes ue: "ue = filter (\<lambda>e. Q e \<and> filter P (systems_of st e) \<noteq> []) es"
    and us: "us = concat (map (\<lambda>e. filter P (systems_of st e)) (filter Q es))"
    and ev: "\<forall>e. environments_at st1 e = (environments_at st e)\<lparr>environment_systems :=
                 (if e \<in> set es \<and> Q e \<and> filter P (systems_of st e) \<noteq> []
                  then filter P (systems_of st e) else systems_of st e)\<rparr>"
  shows "ue = filter (\<lambda>e. Q e \<and> (\<exists>s\<in>set (systems_of st e). P s)) es
       \<and> (\<forall>e\<in>set ue. systems_of st1 e = filter P (systems_of st e))
       \<and> (\<forall>e. e \<notin> set ue \<longrightarrow> environments_at st1 e = environments_at st e)
       \<and> (\<forall>e. environment_name (environments_at st1 e) = environment_name (environments_at st e))
       \<and> us = concat (map (systems_of st1) ue)
       \<and> set us = {s. \<exists>e\<in>set es. Q e \<and> s \<in> set (systems_of st e) \<and> P s}
       \<and> (us = []) = (ue = [])"
proof (intro conjI)
  show "ue = filter (\<lambda>e. Q e \<and> (\<exists>s\<in>set (systems_of st e). P s)) es"
    unfolding ue by (rule filter_cong) (auto simp: filter_empty_conv)
  show a: "\<forall>e\<in>set ue. systems_of st1 e = filter P (systems_of st e)"
    using ev by (auto simp: ue systems_of_def)
  show "\<forall>e. e \<notin> set ue \<longrightarrow> environments_at st1 e = environments_at st e"
    using ev by (auto simp: ue systems_of_def)
  show "\<forall>e. environment_name (environments_at st1 e) = environment_name (environments_at st e)"
    using ev by simp
  have "us = concat (map (\<lambda>e. filter P (systems_of st e)) ue)"
    unfolding us ue by (rule concat_map_filter_nonempty)
  also have "map (\<lambda>e. filter P (systems_of st e)) ue = map (systems_of st1) ue"
    using a by (simp cong: map_cong)
  finally show b: "us = concat (map (systems_of st1) ue)" .
  show "set us = {s. \<exists>e\<in>set es. Q e \<and> s \<in> set (systems_of st e) \<and> P s}"
    unfolding us by auto
  show "(us = []) = (ue = [])"
    unfolding us ue by (auto simp: filter_empty_conv)
qed

lemma check_envs_pure_facts:
  assumes sc: "\<And>s st'. systems_at st' = systems_at st \<Longrightarrow> sc s st' = (Inr (P s), st')"
    and ec: "\<And>e st'. \<forall>x. environment_name (environments_at st' x) =
                 environment_name (environments_at st x) \<Longrightarrow> ec e st' = (Inr (Q e), st')"
  shows "\<exists>ue us st1 new. check_envs es sc ec smsg emsg st = (Inr (ue, us), st1)
       \<and> ue = filter (\<lambda>e. Q e \<and> (\<exists>s\<in>set (systems_of st e). P s)) es
       \<and> (\<forall>e\<in>set ue. systems_of st1 e = filter P (systems_of st e))
       \<and> (\<forall>e. e \<notin> set ue \<longrightarrow> environments_at st1 e = environments_at st e)
       \<and> (\<forall>e. environment_name (environments_at st1 e) = environment_name (environments_at st e))
       \<and> us = concat (map (systems_of st1) ue)
       \<and> set us = {s. \<exists>e\<in>set es. Q e \<and> s \<in> set (systems_of st e) \<and> P s}
       \<and> (us = []) = (ue = [])
       \<and> systems_at st1 = systems_at st \<and> sources_at st1 = sources_at st
       \<and> debug_log st1 = debug_log st @ new
       \<and> set new = stage_messages smsg emsg st {e \<in> set es. \<not> Q e}
             {s \<in> (\<Union>e\<in>{e \<in> set es. Q e}. set (systems_of st e)). \<not> P s}"
proof -
  from check_envs_pure [where st = st and sc = sc and P = P and ec = ec and Q = Q and es = es
      and smsg = smsg and emsg = emsg, OF sc ec]
  obtain st1 new where
    r: "check_envs es sc ec smsg emsg st =
            (Inr (filter (\<lambda>e. Q e \<and> filter P (systems_of st e) \<noteq> []) es,
                  concat (map (\<lambda>e. filter P (systems_of st e)) (filter Q es))), st1)"
    and sy: "systems_at st1 = systems_at st" and so: "sources_at st1 = sources_at st"
    and lg: "debug_log st1 = debug_log st @ new"
      "set new = stage_messages smsg emsg st {e \<in> set es. \<not> Q e}
             {s \<in> (\<Union>e\<in>{e \<in> set es. Q e}. set (systems_of st e)). \<not> P s}"
    and ev: "\<forall>e. environments_at st1 e = (environments_at st e)\<lparr>environment_systems :=
                 (if e \<in> set es \<and> Q e \<and> filter P (systems_of st e) \<noteq> []
                  then filter P (systems_of st e) else systems_of st e)\<rparr>"
    by auto
  from stage_shape [OF refl refl ev] r sy so lg show ?thesis
    by blast
qed

lemma check_envs_sources_facts:
  assumes a: "args ''sources'' = Some user_sources" and t: "truth user_sources"
    and v: "arg_value user_sources = Some names"
  shows "\<exists>ue us st1. check_envs es (system_has_valid_sources truth args) always_true smsg emsg st
         = (Inr (ue, us), st1)
       \<and> ue = filter (\<lambda>e. True \<and> (\<exists>s\<in>set (systems_of st e). set names \<inter> source_names st s \<noteq> {})) es
       \<and> (\<forall>e\<in>set ue. systems_of st1 e =
             filter (\<lambda>s. set names \<inter> source_names st s \<noteq> {}) (systems_of st e))
       \<and> (\<forall>e. e \<notin> set ue \<longrightarrow> environments_at st1 e = environments_at st e)
       \<and> (\<forall>e. environment_name (environments_at st1 e) = environment_name (environments_at st e))
       \<and> us = concat (map (systems_of st1) ue)
       \<and> set us = {s. \<exists>e\<in>set es. True \<and> s \<in> set (systems_of st e)
                        \<and> set names \<inter> source_names st s \<noteq> {}}
       \<and> (us = []) = (ue = [])
       \<and> systems_at st1 = systems_at st
       \<and> sources_at st1 = disabled_view st names (\<Union>e\<in>set es. set (systems_of st e))"
proof -
  let ?P = "\<lambda>s. set names \<inter> source_names st s \<noteq> {}"
  from check_envs_sources [where args = args and user_sources = user_sources and names = names
      and truth = truth and es = es and st = st and smsg = smsg and emsg = emsg, OF a t v]
  obtain st1 where
    r: "check_envs es (system_has_valid_sources truth args) always_true smsg emsg st =
            (Inr (filter (\<lambda>e. filter ?P (systems_of st e) \<noteq> []) es,
                  concat (map (\<lambda>e. filter ?P (systems_of st e)) es)), st1)"
    and sy: "systems_at st1 = systems_at st"
    and so: "sources_at st1 = disabled_view st names (\<Union>e\<in>set es. set (systems_of st e))"
    and ev: "\<forall>e. environments_at st1 e = (environments_at st e)\<lparr>environment_systems :=
                 (if e \<in> set es \<and> filter ?P (systems_of st e) \<noteq> []
                  then filter ?P (systems_of st e) else systems_of st e)\<rparr>"
    by blast
  have ev': "\<forall>e. environments_at st1 e = (environments_at st e)\<lparr>environment_systems :=
                 (if e \<in> set es \<and> True \<and> filter ?P (systems_of st e) \<noteq> []
                  then filter ?P (systems_of st e) else systems_of st e)\<rparr>"
    using ev by simp
  have ue: "filter (\<lambda>e. filter ?P (systems_of st e) \<noteq> []) es =
      filter (\<lambda>e. True \<and> filter ?P (systems_of st e) \<noteq> []) es"
    by simp
  have us: "concat (map (\<lambda>e. filter ?P (systems_of st e)) es) =
      concat (map (\<lambda>e. filter ?P (systems_of st e)) (filter (\<lambda>_. True) es))"
    by simp
  from stage_shape [where Q = "\<lambda>_. True" and P = ?P, OF ue us ev'] r sy so show ?thesis
    by blast
qed


lemma consistent_environment_typed:
  assumes "arg_typed truth args ''env_name''"
    and "\<forall>x. environment_name (environments_at st' x) = environment_name (environments_at st x)"
  shows "consistent_environment truth args e st'
    = (Inr (passes (consistent_environment truth args) e st), st')"
  using assms
  by (auto simp: consistent_environment_def passes_def arg_typed_def in_force_def
      split: option.splits)

lemma consistent_system_typed:
  assumes "arg_typed truth args ''system_type''" and "arg_typed truth args ''systems''"
    and "systems_at st' = systems_at st"
  shows "consistent_system truth args s st'
    = (Inr (passes (consistent_system truth args) s st), st')"
  using assms
  by (auto simp: consistent_system_def consistent_system_names_def passes_def arg_typed_def
      in_force_def Let_def split: option.splits)

lemma passes_consistent_environment:
  assumes "arg_typed truth args ''env_name''"
  shows "passes (consistent_environment truth args) e st = spec_consistent_environment truth args st e"
  using assms
  by (auto simp: consistent_environment_def passes_def arg_typed_def in_force_def
      spec_consistent_environment_def requested_def split: option.splits)

lemma passes_consistent_system:
  assumes "arg_typed truth args ''system_type''" and "arg_typed truth args ''systems''"
  shows "passes (consistent_system truth args) s st = spec_consistent_system truth args st s"
  using assms
  by (auto simp: consistent_system_def consistent_system_names_def passes_def arg_typed_def
      in_force_def spec_consistent_system_def requested_def Let_def split: option.splits)

lemma consistency_facts:
  assumes "arg_typed truth args ''env_name''" and "arg_typed truth args ''system_type''"
    and "arg_typed truth args ''systems''"
  shows "\<exists>ue us st1 new.
       consistency_check truth args es st = (Inr (ue, us), st1)
       \<and> ue = filter (\<lambda>e. passes (consistent_environment truth args) e st
                \<and> (\<exists>s\<in>set (systems_of st e). passes (consistent_system truth args) s st)) es
       \<and> (\<forall>e\<in>set ue. systems_of st1 e =
             filter (\<lambda>s. passes (consistent_system truth args) s st) (systems_of st e))
       \<and> (\<forall>e. e \<notin> set ue \<longrightarrow> environments_at st1 e = environments_at st e)
       \<and> (\<forall>e. environment_name (environments_at st1 e) = environment_name (environments_at st e))
       \<and> us = concat (map (systems_of st1) ue)
       \<and> set us = {s. \<exists>e\<in>set es. passes (consistent_environment truth args) e st
                        \<and> s \<in> set (systems_of st e) \<and> passes (consistent_system truth args) s st}
       \<and> (us = []) = (ue = [])
       \<and> systems_at st1 = systems_at st \<and> sources_at st1 = sources_at st
       \<and> debug_log st1 = debug_log st @ new
       \<and> set new = stage_messages ''System %s is not consistent with user input''
             ''Environment %s is not consistent with user input'' st
             {e \<in> set es. \<not> passes (consistent_environment truth args) e st}
             {s \<in> (\<Union>e\<in>{e \<in> set es. passes (consistent_environment truth args) e st}.
                     set (systems_of st e)). \<not> passes (consistent_system truth args) s st}"
  unfolding consistency_check_def
  by (rule check_envs_pure_facts)
    (simp_all add: consistent_system_typed consistent_environment_typed assms)

lemma enabled_facts:
  "\<exists>ue us st1. enabled_check es st = (Inr (ue, us), st1)
       \<and> ue = filter (\<lambda>e. True \<and> (\<exists>s\<in>set (systems_of st e). System_is_enabled s st)) es
       \<and> (\<forall>e\<in>set ue. systems_of st1 e = filter (\<lambda>s. System_is_enabled s st) (systems_of st e))
       \<and> (\<forall>e. e \<notin> set ue \<longrightarrow> environments_at st1 e = environments_at st e)
       \<and> (\<forall>e. environment_name (environments_at st1 e) = environment_name (environments_at st e))
       \<and> us = concat (map (systems_of st1) ue)
       \<and> set us = {s. \<exists>e\<in>set es. True \<and> s \<in> set (systems_of st e) \<and> System_is_enabled s st}
       \<and> (us = []) = (ue = [])
       \<and> systems_at st1 = systems_at st \<and> sources_at st1 = sources_at st"
proof -
  have sc: "\<And>s st'. systems_at st' = systems_at st \<Longrightarrow>
      system_is_enabled s st' = (Inr (System_is_enabled s st), st')"
    by (simp add: system_is_enabled_def System_is_enabled_def)
  have ec: "\<And>e st'. \<forall>x. environment_name (environments_at st' x) =
      environment_name (environments_at st x) \<Longrightarrow> always_true e st' = (Inr ((\<lambda>_. True) e), st')"
    by (simp add: always_true_def)
  from check_envs_pure_facts [where sc = system_is_enabled and P = "\<lambda>s. System_is_enabled s st"
      and ec = always_true and Q = "\<lambda>_. True" and st = st and es = es
      and smsg = "''System %s is disabled ''" and emsg = "[]", OF sc ec]
  show ?thesis
    unfolding enabled_check_def by blast
qed

lemma validate_after_inputs:
  assumes "inputs_exist truth args environments st"
  shows "validate_environments truth args environments st =
     (case consistency_check truth args environments st of
           (Inl e, st1) \<Rightarrow> (Inl e, st1)
         | (Inr (user_envs, user_systems), st1) \<Rightarrow>
        if user_systems = []
        then (Inl (NoValidSystem (system_names_of (all_systems_of environments st) st)), st1)
        else
        (let st2 = override_enabled_systems truth args user_systems st1
         in case enabled_check user_envs st2 of
              (Inl e, st3) \<Rightarrow> (Inl e, st3)
            | (Inr (user_envs, user_systems), st3) \<Rightarrow>
        if user_systems = [] then (Inl NoEnabledSystem, st3)
        else
        (case sources_check truth args user_envs st3 of
           (Inl e, st4) \<Rightarrow> (Inl e, st4)
         | (Inr (user_envs, user_systems), st4) \<Rightarrow>
        if user_systems = []
        then (Inl (NoValidSources (source_names_of (all_systems_of environments st) st4)), st4)
        else (Inr user_envs, st4))))"
  unfolding consistency_check_def enabled_check_def sources_check_def
  using assms by (simp add: validate_environments_def inputs_exist_def Let_def)

lemma override_frame:
  "environments_at (override_enabled_systems truth args ss st) = environments_at st
   \<and> sources_at (override_enabled_systems truth args ss st) = sources_at st
   \<and> debug_log (override_enabled_systems truth args ss st) = debug_log st"
  by (simp add: override_enabled_systems_def enable_named_result split: option.splits)

lemma override_fields:
  "system_sources (systems_at (override_enabled_systems truth args ss st) s) =
     system_sources (systems_at st s)
   \<and> system_name (systems_at (override_enabled_systems truth args ss st) s) =
     system_name (systems_at st s)"
  by (simp add: override_enabled_systems_def enable_named_result split: option.splits)

lemma override_enabled_iff:
  "s \<in> set ss \<Longrightarrow>
     System_is_enabled s (override_enabled_systems truth args ss st) =
       (System_is_enabled s st
        \<or> (\<exists>ns. requested truth args ''systems'' = Some ns
              \<and> system_name (systems_at st s) \<in> set ns))"
  by (auto simp: override_enabled_systems_def enable_named_result System_is_enabled_def
      requested_def in_force_def split: option.splits)

lemma override_enabled_mono:
  "System_is_enabled s st \<Longrightarrow> System_is_enabled s (override_enabled_systems truth args ss st)"
  by (auto simp: override_enabled_systems_def enable_named_result System_is_enabled_def
      split: option.splits)

lemma disabled_view_name:
  "source_name (disabled_view st names X r) = source_name (sources_at st r)"
  by (simp add: disabled_view_def)


lemma check_names_error:
  "check_names names xs exc = Inl e \<Longrightarrow> \<exists>n. e = exc n xs"
  by (induction names) (auto split: if_splits)

lemma check_input_error:
  "check_input_environments truth args xs key exc = Inl e \<Longrightarrow>
     e = TypeError \<or> (\<exists>n. e = exc n xs)"
  by (auto simp: check_input_environments_def split: option.splits if_splits
      dest: check_names_error)

lemma validate_inputs_fail:
  assumes "\<not> inputs_exist truth args environments st"
  shows "\<exists>e. validate_environments truth args environments st = (Inl e, st)
       \<and> (e = TypeError \<or> (\<exists>n l. e = InvalidEnvironment n l) \<or> (\<exists>n l. e = InvalidSystem n l))"
proof (cases "check_input_environments truth args (all_envs_of environments st) ''env_name''
    InvalidEnvironment")
  case (Inl e)
  then have "validate_environments truth args environments st = (Inl e, st)"
    by (simp add: validate_environments_def)
  with check_input_error [OF Inl] show ?thesis
    by auto
next
  case (Inr u)
  show ?thesis
  proof (cases "check_input_environments truth args
      (system_names_of (all_systems_of environments st) st) ''systems'' InvalidSystem")
    case (Inl e)
    then have "validate_environments truth args environments st = (Inl e, st)"
      using Inr by (simp add: validate_environments_def)
    with check_input_error [OF Inl] show ?thesis
      by auto
  next
    case inr2: (Inr u2)
    with Inr assms show ?thesis
      by (simp add: inputs_exist_def)
  qed
qed

section \<open>Validator: results\<close>

text \<open>
  C7. When the \<open>env_name\<close> argument, supplied and true, holds a name that no
  configured environment has, \<open>validate_environments\<close> raises \<open>InvalidEnvironment\<close> for such a name, with
  the names of all configured environments. When the \<open>env_name\<close> check passes and
  the \<open>systems\<close> argument, supplied and true, holds a name that no configured
  system has, it raises
  \<open>InvalidSystem\<close> for such a name, with the names of all configured systems. In
  both cases the configuration is returned as it was given: nothing has been pruned
  or mutated.
\<close>

theorem validate_environments_input_names:
  "(requested truth args ''env_name'' = Some names
      \<and> \<not> set names \<subseteq> set (all_envs_of environments st) \<longrightarrow>
      (\<exists>name. name \<in> set names \<and> name \<notin> set (all_envs_of environments st)
         \<and> validate_environments truth args environments st =
             (Inl (InvalidEnvironment name (all_envs_of environments st)), st)))
   \<and> ((in_force truth args ''env_name'' = None
        \<or> (\<exists>env_names. requested truth args ''env_name'' = Some env_names
              \<and> set env_names \<subseteq> set (all_envs_of environments st)))
      \<and> requested truth args ''systems'' = Some names
      \<and> \<not> set names \<subseteq> set (system_names_of (all_systems_of environments st) st) \<longrightarrow>
      (\<exists>name. name \<in> set names
         \<and> name \<notin> set (system_names_of (all_systems_of environments st) st)
         \<and> validate_environments truth args environments st =
             (Inl (InvalidSystem name (system_names_of (all_systems_of environments st) st)), st)))"
proof (intro conjI impI)
  assume h: "requested truth args ''env_name'' = Some names
      \<and> \<not> set names \<subseteq> set (all_envs_of environments st)"
  then obtain a where a: "args ''env_name'' = Some a" "truth a" "arg_value a = Some names"
    using requested_SomeD by blast
  from h check_names_fails [of names "all_envs_of environments st" InvalidEnvironment]
  obtain name where n: "name \<in> set names" "name \<notin> set (all_envs_of environments st)"
    "check_names names (all_envs_of environments st) InvalidEnvironment =
       Inl (InvalidEnvironment name (all_envs_of environments st))"
    by blast
  have "validate_environments truth args environments st =
      (Inl (InvalidEnvironment name (all_envs_of environments st)), st)"
    using a n(3) by (simp add: validate_environments_def check_input_environments_def)
  with n show "\<exists>name. name \<in> set names \<and> name \<notin> set (all_envs_of environments st)
         \<and> validate_environments truth args environments st =
             (Inl (InvalidEnvironment name (all_envs_of environments st)), st)"
    by blast
next
  let ?sn = "system_names_of (all_systems_of environments st) st"
  assume h: "(in_force truth args ''env_name'' = None
        \<or> (\<exists>env_names. requested truth args ''env_name'' = Some env_names
              \<and> set env_names \<subseteq> set (all_envs_of environments st)))
      \<and> requested truth args ''systems'' = Some names
      \<and> \<not> set names \<subseteq> set ?sn"
  then have e: "check_input_environments truth args (all_envs_of environments st) ''env_name''
      InvalidEnvironment = Inr ()"
    by (auto simp: check_input_environments_def requested_def in_force_def check_names_ok
        split: option.splits if_splits)
  from h obtain a where a: "args ''systems'' = Some a" "truth a" "arg_value a = Some names"
    using requested_SomeD by blast
  from h check_names_fails [of names ?sn InvalidSystem]
  obtain name where n: "name \<in> set names" "name \<notin> set ?sn"
    "check_names names ?sn InvalidSystem = Inl (InvalidSystem name ?sn)"
    by blast
  have "validate_environments truth args environments st = (Inl (InvalidSystem name ?sn), st)"
    using a n(3) e by (simp add: validate_environments_def check_input_environments_def)
  with n show "\<exists>name. name \<in> set names \<and> name \<notin> set ?sn
         \<and> validate_environments truth args environments st = (Inl (InvalidSystem name ?sn), st)"
    by blast
qed

text \<open>
  C5, as stated, fails on the logging: an environment that is dropped because none of
  its systems passes the check is not logged. With \<open>system_type = ['jenkins']\<close> the
  environment \<open>env2\<close> of the example is dropped, its system \<open>sys_c\<close> being a Zuul
  system, and the stage has logged the two rejected systems and nothing about
  \<open>env2\<close>.
\<close>

theorem consistency_stage_log_counterexample:
  "fst (consistency_check value_truth [''system_type'' \<mapsto> arg [''jenkins'']] [0, 1] example_store)
     = Inr ([0], [0])
   \<and> environment_name (environments_at example_store 1) = ''env2''
   \<and> debug_log (snd (consistency_check value_truth [''system_type'' \<mapsto> arg [''jenkins'']]
        [0, 1] example_store))
     = [(''System %s is not consistent with user input'', ''sys_b''),
        (''System %s is not consistent with user input'', ''sys_c'')]
   \<and> ''env2'' \<notin> set (map snd (debug_log (snd (validate_environments value_truth
        [''system_type'' \<mapsto> arg [''jenkins'']] [0, 1] example_store))))"
  by (simp add: eval_defs)

text \<open>
  C5, amended. With well-typed arguments the consistency stage never raises. It retains
  exactly the environments that are consistent with the \<open>env_name\<close> argument and hold
  at least one system consistent with the \<open>system_type\<close> and \<open>systems\<close> arguments; a
  retained environment is left with its consistent systems, and an environment with
  none is dropped. The stage logs the environments that fail the \<open>env_name\<close> check and
  the systems of the other environments that fail the system check, and nothing else:
  an environment dropped for lack of consistent systems is not logged itself. The
  systems returned are those of the retained environments, so none is left exactly when
  no environment is left; then, the input names being valid, \<open>validate_environments\<close>
  raises \<open>NoValidSystem\<close> with the names of all configured systems.
\<close>

theorem consistency_stage:
  assumes "arg_typed truth args ''env_name''" and "arg_typed truth args ''system_type''"
    and "arg_typed truth args ''systems''"
  shows "\<exists>user_envs user_systems st1 new.
       consistency_check truth args environments st = (Inr (user_envs, user_systems), st1)
       \<and> user_envs = filter (\<lambda>env. spec_consistent_environment truth args st env
                \<and> (\<exists>system\<in>set (systems_of st env). spec_consistent_system truth args st system))
              environments
       \<and> (\<forall>env\<in>set user_envs. systems_of st1 env =
             filter (spec_consistent_system truth args st) (systems_of st env))
       \<and> user_systems = concat (map (systems_of st1) user_envs)
       \<and> (user_systems = []) = (user_envs = [])
       \<and> debug_log st1 = debug_log st @ new
       \<and> set new = stage_messages ''System %s is not consistent with user input''
             ''Environment %s is not consistent with user input'' st
             {env \<in> set environments. \<not> spec_consistent_environment truth args st env}
             {s \<in> (\<Union>env\<in>{env \<in> set environments. spec_consistent_environment truth args st env}.
                     set (systems_of st env)). \<not> spec_consistent_system truth args st s}
       \<and> (inputs_exist truth args environments st \<and> user_systems = [] \<longrightarrow>
            validate_environments truth args environments st =
              (Inl (NoValidSystem (system_names_of (all_systems_of environments st) st)), st1))"
proof -
  note pe = passes_consistent_environment [OF assms(1)]
  note ps = passes_consistent_system [OF assms(2,3)]
  from consistency_facts [OF assms, of environments st] obtain ue us st1 new where
    r: "consistency_check truth args environments st = (Inr (ue, us), st1)"
    and f: "ue = filter (\<lambda>e. spec_consistent_environment truth args st e
                \<and> (\<exists>s\<in>set (systems_of st e). spec_consistent_system truth args st s)) environments"
      "\<forall>e\<in>set ue. systems_of st1 e =
             filter (\<lambda>s. spec_consistent_system truth args st s) (systems_of st e)"
      "us = concat (map (systems_of st1) ue)"
      "(us = []) = (ue = [])"
      "debug_log st1 = debug_log st @ new"
      "set new = stage_messages ''System %s is not consistent with user input''
             ''Environment %s is not consistent with user input'' st
             {e \<in> set environments. \<not> spec_consistent_environment truth args st e}
             {s \<in> (\<Union>e\<in>{e \<in> set environments. spec_consistent_environment truth args st e}.
                     set (systems_of st e)). \<not> spec_consistent_system truth args st s}"
    unfolding pe ps by blast
  have l: "inputs_exist truth args environments st \<and> us = [] \<longrightarrow>
      validate_environments truth args environments st =
      (Inl (NoValidSystem (system_names_of (all_systems_of environments st) st)), st1)"
    using r by (auto simp: validate_after_inputs)
  show ?thesis
  proof (intro exI conjI)
    show "consistency_check truth args environments st = (Inr (ue, us), st1)"
      by (rule r)
    show "ue = filter (\<lambda>env. spec_consistent_environment truth args st env
                \<and> (\<exists>system\<in>set (systems_of st env). spec_consistent_system truth args st system))
              environments"
      by (rule f)
    show "\<forall>env\<in>set ue. systems_of st1 env =
             filter (spec_consistent_system truth args st) (systems_of st env)"
      by (rule f)
    show "us = concat (map (systems_of st1) ue)"
      by (rule f)
    show "(us = []) = (ue = [])"
      by (rule f)
    show "debug_log st1 = debug_log st @ new"
      by (rule f)
    show "set new = stage_messages ''System %s is not consistent with user input''
             ''Environment %s is not consistent with user input'' st
             {env \<in> set environments. \<not> spec_consistent_environment truth args st env}
             {s \<in> (\<Union>env\<in>{env \<in> set environments. spec_consistent_environment truth args st env}.
                     set (systems_of st env)). \<not> spec_consistent_system truth args st s}"
      by (rule f)
    show "inputs_exist truth args environments st \<and> us = [] \<longrightarrow>
            validate_environments truth args environments st =
              (Inl (NoValidSystem (system_names_of (all_systems_of environments st) st)), st1)"
      by (rule l)
  qed
qed


text \<open>
  C10. With a \<open>sources\<close> argument in force, that is, supplied and true, that holds
  \<open>names\<close>, when \<open>validate_environments\<close> raises \<open>NoValidSources\<close>, the store it
  leaves behind is not the one it was given: every source of every examined system has a name outside
  \<open>names\<close> and is disabled in it, and there is an examined system. Nothing is rolled
  back; names and the source lists of systems are as before.
\<close>

theorem source_disable_persists:
  assumes typed: "arg_typed truth args ''env_name''" "arg_typed truth args ''system_type''"
      "arg_typed truth args ''systems''"
    and req: "requested truth args ''sources'' = Some names"
    and fail: "validate_environments truth args environments st = (Inl (NoValidSources ns), st')"
  shows "(\<forall>s. examined truth args environments st s \<longrightarrow>
            (\<forall>r\<in>set (system_sources (systems_at st s)).
               source_name (sources_at st r) \<notin> set names
               \<and> \<not> source_enabled (sources_at st' r)))
       \<and> (\<exists>s. examined truth args environments st s)
       \<and> (\<forall>r. source_name (sources_at st' r) = source_name (sources_at st r))
       \<and> (\<forall>s. system_sources (systems_at st' s) = system_sources (systems_at st s))"
proof -
  have inputs: "inputs_exist truth args environments st"
  proof (rule ccontr)
    assume "\<not> inputs_exist truth args environments st"
    from validate_inputs_fail [OF this] fail show False
      by auto
  qed
  note v = validate_after_inputs [OF inputs]
  from consistency_facts [OF typed, of environments st] obtain envs1 systems1 st1 where
    r1: "consistency_check truth args environments st = (Inr (envs1, systems1), st1)"
    and c1: "systems1 = concat (map (systems_of st1) envs1)"
    and s1: "set systems1 = {s. \<exists>e\<in>set environments. passes (consistent_environment truth args) e st
                        \<and> s \<in> set (systems_of st e) \<and> passes (consistent_system truth args) s st}"
    and k1: "systems_at st1 = systems_at st" "sources_at st1 = sources_at st"
    by blast
  have n1: "systems1 \<noteq> []"
  proof
    assume "systems1 = []"
    with fail r1 show False
      by (simp add: v)
  qed
  let ?st2 = "override_enabled_systems truth args systems1 st1"
  from enabled_facts [of envs1 ?st2] obtain envs2 systems2 st3 where
    r2: "enabled_check envs1 ?st2 = (Inr (envs2, systems2), st3)"
    and c2: "systems2 = concat (map (systems_of st3) envs2)"
    and s2: "set systems2 = {s. \<exists>e\<in>set envs1. True \<and> s \<in> set (systems_of ?st2 e)
                        \<and> System_is_enabled s ?st2}"
    and k2: "systems_at st3 = systems_at ?st2" "sources_at st3 = sources_at ?st2"
    by blast
  have n2: "systems2 \<noteq> []"
  proof
    assume "systems2 = []"
    with fail r1 n1 r2 show False
      by (simp add: v Let_def)
  qed
  from requested_SomeD [OF req] obtain a where
    a: "args ''sources'' = Some a" "truth a" "arg_value a = Some names"
    by blast
  from check_envs_sources_facts [where args = args and user_sources = a and names = names
      and truth = truth and es = envs2 and st = st3
      and smsg = "''System %s has no sources consistent with user input''" and emsg = "[]", OF a]
  obtain envs3 systems3 st4 where
    r3: "sources_check truth args envs2 st3 = (Inr (envs3, systems3), st4)"
    and s3: "set systems3 = {s. \<exists>e\<in>set envs2. True \<and> s \<in> set (systems_of st3 e)
                        \<and> set names \<inter> source_names st3 s \<noteq> {}}"
    and k3: "systems_at st4 = systems_at st3"
      "sources_at st4 = disabled_view st3 names (\<Union>e\<in>set envs2. set (systems_of st3 e))"
    unfolding sources_check_def by blast
  have n3: "systems3 = []"
  proof (rule ccontr)
    assume "systems3 \<noteq> []"
    with fail r1 n1 r2 n2 r3 show False
      by (simp add: v Let_def)
  qed
  have st': "st' = st4"
    using fail r1 n1 r2 n2 r3 n3 by (simp add: v Let_def)
  have src: "\<And>s. system_sources (systems_at st3 s) = system_sources (systems_at st s)"
    by (simp add: k2 override_fields k1)
  have nm: "\<And>r. source_name (sources_at st3 r) = source_name (sources_at st r)"
    by (simp add: k2 override_frame k1)
  have so2: "\<And>e. systems_of ?st2 e = systems_of st1 e"
    by (simp add: systems_of_def override_frame)
  have u1: "set systems1 = (\<Union>e\<in>set envs1. set (systems_of st1 e))"
    by (subst c1) simp
  have u2: "set systems2 = (\<Union>e\<in>set envs2. set (systems_of st3 e))"
    by (subst c2) simp
  have in2: "s \<in> set systems2" if ex: "examined truth args environments st s" for s
  proof -
    from ex have m1: "s \<in> set systems1"
      unfolding s1 examined_def by blast
    from ex have "System_is_enabled s st1
        \<or> (\<exists>ns. requested truth args ''systems'' = Some ns
              \<and> system_name (systems_at st1 s) \<in> set ns)"
      by (simp add: examined_def System_is_enabled_def k1)
    then have en: "System_is_enabled s ?st2"
      using override_enabled_iff [OF m1, of truth args st1] by simp
    from m1 u1 obtain e where "e \<in> set envs1" "s \<in> set (systems_of st1 e)"
      by auto
    with en show ?thesis
      unfolding s2 so2 by auto
  qed
  have dis: "source_name (sources_at st r) \<notin> set names \<and> \<not> source_enabled (sources_at st' r)"
    if ex: "examined truth args environments st s"
      and r: "r \<in> set (system_sources (systems_at st s))"
    for s r
  proof -
    from in2 [OF ex] u2 obtain e where e: "e \<in> set envs2" "s \<in> set (systems_of st3 e)"
      by auto
    have "s \<notin> set systems3"
      by (simp add: n3)
    with e have "set names \<inter> source_names st3 s = {}"
      unfolding s3 by blast
    moreover have "source_name (sources_at st r) \<in> source_names st3 s"
      using r by (auto simp: source_names_def src nm)
    ultimately have out: "source_name (sources_at st r) \<notin> set names"
      by auto
    have "r \<in> (\<Union>s\<in>(\<Union>e\<in>set envs2. set (systems_of st3 e)). set (system_sources (systems_at st3 s)))"
      using e r by (auto simp: src)
    then have "\<not> source_enabled (sources_at st4 r)"
      using out by (simp add: k3 disabled_view_def nm)
    with out show ?thesis
      by (simp add: st')
  qed
  have some: "\<exists>s. examined truth args environments st s"
  proof -
    from n2 obtain s where m2: "s \<in> set systems2"
      by (cases systems2) auto
    then obtain e where e: "e \<in> set envs1" "s \<in> set (systems_of st1 e)"
      and en: "System_is_enabled s ?st2"
      unfolding s2 so2 by auto
    from e u1 have m1: "s \<in> set systems1"
      by auto
    from en override_enabled_iff [OF m1, of truth args st1]
    have "System_is_enabled s st
        \<or> (\<exists>ns. requested truth args ''systems'' = Some ns
              \<and> system_name (systems_at st s) \<in> set ns)"
      by (simp add: System_is_enabled_def k1)
    with m1 have "examined truth args environments st s"
      unfolding s1 examined_def by blast
    then show ?thesis ..
  qed
  show ?thesis
  proof (intro conjI allI impI ballI)
    fix s r
    assume "examined truth args environments st s" "r \<in> set (system_sources (systems_at st s))"
    from dis [OF this] show "source_name (sources_at st r) \<notin> set names"
      and "\<not> source_enabled (sources_at st' r)"
      by simp_all
  next
    show "\<exists>s. examined truth args environments st s"
      by (rule some)
  next
    fix r
    show "source_name (sources_at st' r) = source_name (sources_at st r)"
      by (simp add: st' k3 disabled_view_name nm)
  next
    fix s
    show "system_sources (systems_at st' s) = system_sources (systems_at st s)"
      by (simp add: st' k3 src)
  qed
qed






section \<open>Validator: the example configuration\<close>

theorem validate_environments_input_names_witness:
  "requested value_truth [''env_name'' \<mapsto> arg [''doesnotexist'']] ''env_name''
     = Some [''doesnotexist'']
   \<and> \<not> set [''doesnotexist''] \<subseteq> set (all_envs_of [0, 1] example_store)
   \<and> validate_environments value_truth [''env_name'' \<mapsto> arg [''doesnotexist'']] [0, 1]
        example_store
       = (Inl (InvalidEnvironment ''doesnotexist'' [''env1'', ''env2'']), example_store)
   \<and> in_force value_truth [''systems'' \<mapsto> arg [''nosuch'']] ''env_name'' = None
   \<and> requested value_truth [''systems'' \<mapsto> arg [''nosuch'']] ''systems'' = Some [''nosuch'']
   \<and> \<not> set [''nosuch''] \<subseteq> set (system_names_of (all_systems_of [0, 1] example_store) example_store)
   \<and> validate_environments value_truth [''systems'' \<mapsto> arg [''nosuch'']] [0, 1] example_store
       = (Inl (InvalidSystem ''nosuch'' [''sys_a'', ''sys_b'', ''sys_c'']), example_store)"
proof -
  let ?A = "[''env_name'' \<mapsto> arg [''doesnotexist'']]"
  let ?B = "[''systems'' \<mapsto> arg [''nosuch'']]"
  have envs: "all_envs_of [0, 1] example_store = [''env1'', ''env2'']"
    by (simp add: all_envs_of_def example_store_def)
  have syss: "system_names_of (all_systems_of [0, 1] example_store) example_store
      = [''sys_a'', ''sys_b'', ''sys_c'']"
    by (simp add: system_names_of_def all_systems_of_def example_store_def)
  have a: "requested value_truth ?A ''env_name'' = Some [''doesnotexist'']
      \<and> \<not> set [''doesnotexist''] \<subseteq> set (all_envs_of [0, 1] example_store)"
    using envs by (simp add: requested_def in_force_def value_truth_def arg_def)
  have n: "in_force value_truth ?B ''env_name'' = None"
    by (simp add: in_force_def)
  have b: "(in_force value_truth ?B ''env_name'' = None
        \<or> (\<exists>env_names. requested value_truth ?B ''env_name'' = Some env_names
              \<and> set env_names \<subseteq> set (all_envs_of [0, 1] example_store)))
      \<and> requested value_truth ?B ''systems'' = Some [''nosuch'']
      \<and> \<not> set [''nosuch''] \<subseteq> set (system_names_of (all_systems_of [0, 1] example_store)
            example_store)"
    using syss by (simp add: requested_def in_force_def value_truth_def arg_def)
  note t = validate_environments_input_names
  from t [where truth = value_truth and args = ?A and names = "[''doesnotexist'']"
      and environments = "[0, 1]" and st = example_store, THEN conjunct1, THEN mp, OF a]
  have ra: "validate_environments value_truth ?A [0, 1] example_store
       = (Inl (InvalidEnvironment ''doesnotexist'' [''env1'', ''env2'']), example_store)"
    using envs by auto
  from t [where truth = value_truth and args = ?B and names = "[''nosuch'']"
      and environments = "[0, 1]" and st = example_store, THEN conjunct2, THEN mp, OF b]
  have rb: "validate_environments value_truth ?B [0, 1] example_store
       = (Inl (InvalidSystem ''nosuch'' [''sys_a'', ''sys_b'', ''sys_c'']), example_store)"
    using syss by auto
  from a b n ra rb show ?thesis
    by simp
qed

theorem consistency_stage_witness:
  "arg_typed value_truth [''systems'' \<mapsto> arg [''sys_b'']] ''env_name''
   \<and> arg_typed value_truth [''systems'' \<mapsto> arg [''sys_b'']] ''system_type''
   \<and> arg_typed value_truth [''systems'' \<mapsto> arg [''sys_b'']] ''systems''
   \<and> (\<exists>st1. consistency_check value_truth [''systems'' \<mapsto> arg [''sys_b'']] [0, 1] example_store
             = (Inr ([0], [1]), st1)
           \<and> systems_of st1 0 = [1]
           \<and> set (debug_log st1) =
               {(''System %s is not consistent with user input'', ''sys_a''),
                (''System %s is not consistent with user input'', ''sys_c'')})
   \<and> arg_typed value_truth [''system_type'' \<mapsto> arg [''other'']] ''env_name''
   \<and> arg_typed value_truth [''system_type'' \<mapsto> arg [''other'']] ''system_type''
   \<and> arg_typed value_truth [''system_type'' \<mapsto> arg [''other'']] ''systems''
   \<and> inputs_exist value_truth [''system_type'' \<mapsto> arg [''other'']] [0, 1] example_store
   \<and> fst (validate_environments value_truth [''system_type'' \<mapsto> arg [''other'']] [0, 1]
        example_store)
       = Inl (NoValidSystem [''sys_a'', ''sys_b'', ''sys_c''])"
proof -
  let ?A = "[''systems'' \<mapsto> arg [''sys_b'']]"
  let ?B = "[''system_type'' \<mapsto> arg [''other'']]"
  have ta: "arg_typed value_truth ?A ''env_name''" "arg_typed value_truth ?A ''system_type''"
    "arg_typed value_truth ?A ''systems''"
    by (simp_all add: arg_typed_def in_force_def value_truth_def arg_def)
  have tb: "arg_typed value_truth ?B ''env_name''" "arg_typed value_truth ?B ''system_type''"
    "arg_typed value_truth ?B ''systems''"
    by (simp_all add: arg_typed_def in_force_def value_truth_def arg_def)
  have ib: "inputs_exist value_truth ?B [0, 1] example_store"
    by (simp add: inputs_exist_def check_input_environments_def)
  have pa: "filter (\<lambda>env. spec_consistent_environment value_truth ?A example_store env
                \<and> (\<exists>system\<in>set (systems_of example_store env).
                      spec_consistent_system value_truth ?A example_store system)) [0, 1] = [0]"
    by (simp add: eval_defs)
  have fa: "filter (spec_consistent_system value_truth ?A example_store)
      (systems_of example_store 0) = [1]"
    by (simp add: eval_defs)
  have ea: "{env \<in> set [0, 1].
      \<not> spec_consistent_environment value_truth ?A example_store env} = {}"
    by (simp add: eval_defs)
  have ua: "{env \<in> set [0, 1].
      spec_consistent_environment value_truth ?A example_store env} = set [0, 1]"
    by (auto simp: eval_defs)
  have sa: "(\<Union>env\<in>set [0, 1]. set (systems_of example_store env)) = set [0, 1, 2]"
    by (auto simp: eval_defs)
  have ga: "filter (\<lambda>s. \<not> spec_consistent_system value_truth ?A example_store s) [0, 1, 2]
      = [0, 2]"
    by (simp add: eval_defs)
  have "{s \<in> set [0, 1, 2]. \<not> spec_consistent_system value_truth ?A example_store s}
      = set (filter (\<lambda>s. \<not> spec_consistent_system value_truth ?A example_store s) [0, 1, 2])"
    by (simp only: set_filter)
  then have ra: "{s \<in> (\<Union>env\<in>{env \<in> set [0, 1].
                       spec_consistent_environment value_truth ?A example_store env}.
                     set (systems_of example_store env)).
                \<not> spec_consistent_system value_truth ?A example_store s} = set [0, 2]"
    unfolding ua sa ga .
  have la: "stage_messages ''System %s is not consistent with user input''
             ''Environment %s is not consistent with user input'' example_store
             {env \<in> set [0, 1]. \<not> spec_consistent_environment value_truth ?A example_store env}
             {s \<in> (\<Union>env\<in>{env \<in> set [0, 1].
                       spec_consistent_environment value_truth ?A example_store env}.
                     set (systems_of example_store env)).
                \<not> spec_consistent_system value_truth ?A example_store s}
      = {(''System %s is not consistent with user input'', ''sys_a''),
         (''System %s is not consistent with user input'', ''sys_c'')}"
    unfolding ea ra by (simp add: stage_messages_def example_store_def)
  have pb: "filter (\<lambda>env. spec_consistent_environment value_truth ?B example_store env
                \<and> (\<exists>system\<in>set (systems_of example_store env).
                      spec_consistent_system value_truth ?B example_store system)) [0, 1] = []"
    by (simp add: eval_defs)
  have syss: "system_names_of (all_systems_of [0, 1] example_store) example_store
      = [''sys_a'', ''sys_b'', ''sys_c'']"
    by (simp add: system_names_of_def all_systems_of_def example_store_def)
  have l0: "debug_log example_store = []"
    by (simp add: example_store_def)
  from consistency_stage [OF ta, of "[0, 1]" example_store] obtain ue us st1 new where
    r: "consistency_check value_truth ?A [0, 1] example_store = (Inr (ue, us), st1)"
    and ue: "ue = filter (\<lambda>env. spec_consistent_environment value_truth ?A example_store env
                \<and> (\<exists>system\<in>set (systems_of example_store env).
                      spec_consistent_system value_truth ?A example_store system)) [0, 1]"
    and sy: "\<forall>env\<in>set ue. systems_of st1 env =
             filter (spec_consistent_system value_truth ?A example_store)
               (systems_of example_store env)"
    and us: "us = concat (map (systems_of st1) ue)"
    and lg: "debug_log st1 = debug_log example_store @ new"
    and nw: "set new = stage_messages ''System %s is not consistent with user input''
             ''Environment %s is not consistent with user input'' example_store
             {env \<in> set [0, 1]. \<not> spec_consistent_environment value_truth ?A example_store env}
             {s \<in> (\<Union>env\<in>{env \<in> set [0, 1].
                       spec_consistent_environment value_truth ?A example_store env}.
                     set (systems_of example_store env)).
                \<not> spec_consistent_system value_truth ?A example_store s}"
    by blast
  have ue0: "ue = [0]"
    using ue pa by simp
  have s0: "systems_of st1 0 = [1]"
    using sy fa by (simp add: ue0)
  have us0: "us = [1]"
    using us by (simp add: ue0 s0)
  have lg0: "set (debug_log st1) =
      {(''System %s is not consistent with user input'', ''sys_a''),
       (''System %s is not consistent with user input'', ''sys_c'')}"
    unfolding lg l0 using nw la by simp
  have wa: "\<exists>st1. consistency_check value_truth ?A [0, 1] example_store = (Inr ([0], [1]), st1)
      \<and> systems_of st1 0 = [1]
      \<and> set (debug_log st1) =
          {(''System %s is not consistent with user input'', ''sys_a''),
           (''System %s is not consistent with user input'', ''sys_c'')}"
    using r s0 lg0 unfolding ue0 us0 by blast
  from consistency_stage [OF tb, of "[0, 1]" example_store] obtain ue' us' st1' where
    r': "consistency_check value_truth ?B [0, 1] example_store = (Inr (ue', us'), st1')"
    and ue': "ue' = filter (\<lambda>env. spec_consistent_environment value_truth ?B example_store env
                \<and> (\<exists>system\<in>set (systems_of example_store env).
                      spec_consistent_system value_truth ?B example_store system)) [0, 1]"
    and e': "(us' = []) = (ue' = [])"
    and l': "inputs_exist value_truth ?B [0, 1] example_store \<and> us' = [] \<longrightarrow>
            validate_environments value_truth ?B [0, 1] example_store =
              (Inl (NoValidSystem (system_names_of (all_systems_of [0, 1] example_store)
                 example_store)), st1')"
    by blast
  have "us' = []"
    using e' ue' pb by simp
  with l' ib syss have wb: "fst (validate_environments value_truth ?B [0, 1] example_store)
       = Inl (NoValidSystem [''sys_a'', ''sys_b'', ''sys_c''])"
    by simp
  from ta tb ib wa wb show ?thesis
    by simp
qed



theorem source_disable_persists_witness:
  "arg_typed value_truth [''systems'' \<mapsto> arg [''sys_a''], ''sources'' \<mapsto> arg [''C'']] ''env_name''
   \<and> arg_typed value_truth [''systems'' \<mapsto> arg [''sys_a''], ''sources'' \<mapsto> arg [''C'']]
        ''system_type''
   \<and> arg_typed value_truth [''systems'' \<mapsto> arg [''sys_a''], ''sources'' \<mapsto> arg [''C'']] ''systems''
   \<and> requested value_truth [''systems'' \<mapsto> arg [''sys_a''], ''sources'' \<mapsto> arg [''C'']] ''sources''
       = Some [''C'']
   \<and> fst (validate_environments value_truth
             [''systems'' \<mapsto> arg [''sys_a''], ''sources'' \<mapsto> arg [''C'']]
             [0, 1] example_store) = Inl (NoValidSources [''A'', ''B'', ''A'', ''D''])
   \<and> examined value_truth [''systems'' \<mapsto> arg [''sys_a''], ''sources'' \<mapsto> arg [''C'']] [0, 1]
        example_store 0
   \<and> source_enabled (sources_at example_store 0)
   \<and> source_enabled (sources_at example_store 1)
   \<and> \<not> source_enabled (sources_at (snd (validate_environments value_truth
         [''systems'' \<mapsto> arg [''sys_a''], ''sources'' \<mapsto> arg [''C'']] [0, 1] example_store)) 0)
   \<and> \<not> source_enabled (sources_at (snd (validate_environments value_truth
         [''systems'' \<mapsto> arg [''sys_a''], ''sources'' \<mapsto> arg [''C'']] [0, 1] example_store)) 1)"
proof -
  let ?A = "[''systems'' \<mapsto> arg [''sys_a''], ''sources'' \<mapsto> arg [''C'']]"
  let ?v = "validate_environments value_truth ?A [0, 1] example_store"
  have ta: "arg_typed value_truth ?A ''env_name''" "arg_typed value_truth ?A ''system_type''"
    "arg_typed value_truth ?A ''systems''"
    by (simp_all add: arg_typed_def in_force_def value_truth_def arg_def)
  have qa: "requested value_truth ?A ''sources'' = Some [''C'']"
    by (simp add: requested_def in_force_def value_truth_def arg_def)
  have f: "fst ?v = Inl (NoValidSources [''A'', ''B'', ''A'', ''D''])"
    by (simp add: eval_defs)
  then have fail: "?v = (Inl (NoValidSources [''A'', ''B'', ''A'', ''D'']), snd ?v)"
    by (simp add: prod_eq_iff)
  have ex: "examined value_truth ?A [0, 1] example_store 0"
    by (simp add: examined_def eval_defs)
  have rs: "0 \<in> set (system_sources (systems_at example_store 0))"
    "1 \<in> set (system_sources (systems_at example_store 0))"
    by (simp_all add: example_store_def)
  have before: "source_enabled (sources_at example_store 0)"
    "source_enabled (sources_at example_store 1)"
    by (simp_all add: example_store_def)
  from source_disable_persists [OF ta qa fail] have
    "\<forall>s. examined value_truth ?A [0, 1] example_store s \<longrightarrow>
            (\<forall>r\<in>set (system_sources (systems_at example_store s)).
               source_name (sources_at example_store r) \<notin> set [''C'']
               \<and> \<not> source_enabled (sources_at (snd ?v) r))"
    by blast
  with ex rs have after: "\<not> source_enabled (sources_at (snd ?v) 0)"
    "\<not> source_enabled (sources_at (snd ?v) 1)"
    by blast+
  from ta qa f ex before after show ?thesis
    by blast
qed

end
